theory Spec2Isabelle
  imports Complex_Main "HOL-Library.Log_Nat"
begin

section \<open>Data model\<close>

text \<open>
  The exceptions the modelled code can raise. \<open>IndexError\<close> is numpy's out-of-bounds
  index, \<open>NameError\<close> the lookup of a name that no scope binds, \<open>ValueError\<close>
  a shape mismatch reported by numpy (and the exception \<open>computeGC\<close> raises itself),
  \<open>TypeError\<close> an operation on a value of the wrong type, \<open>LinAlgError\<close> numpy's
  singular matrix.
\<close>

datatype error = IndexError | NameError | ValueError | TypeError | LinAlgError

text \<open>
  \<open>CompartmentNode\<close>: the fields of the node class. The base class \<open>SNode\<close> gives
  \<open>index\<close> and the link \<open>parent_node\<close>; the only thing the tree code ever reads
  through that link is the parent's \<open>index\<close>, which no function here assigns, so the
  link is stored as that index (\<open>None\<close> at the root). Python integers are unbounded:
  \<open>int\<close>. The parameters are float64 numbers in the code and real numbers here: the
  arithmetic of the functions below is exact, and where rounding decides a claim (the
  tolerance of the round trip, the singular matrix that the inverter is to report) the
  rounding to float64 is modelled on its own, by \<open>float64\<close> below.
\<close>

record node =
  index :: int
  parent_node :: "int option"
  ca :: real
  g_c :: real
  g_l :: real

text \<open>
  \<open>CompartmentTree\<close>: the nodes in the order in which \<open>for node in self\<close> yields
  them; \<open>len(self)\<close> is the length of that list.
\<close>

type_synonym tree = "node list"

text \<open>\<open>CompartmentNode.__init__(index, ca=1., g_c=0., g_l=1e-2)\<close>, with its parent link.\<close>

definition CompartmentNode :: "int \<Rightarrow> int option \<Rightarrow> node" where
  "CompartmentNode i p = \<lparr>index = i, parent_node = p, ca = 1, g_c = 0, g_l = 1 / 100\<rparr>"

section \<open>Arrays\<close>

text \<open>A two-dimensional numpy array is the list of its rows.\<close>

definition zeros :: "nat \<Rightarrow> nat \<Rightarrow> 'a::zero list list" where
  "zeros n m = replicate n (replicate m 0)"

definition eye :: "nat \<Rightarrow> 'a::{zero,one} list list" where
  "eye n = map (\<lambda>i. map (\<lambda>j. if i = j then 1 else 0) [0..<n]) [0..<n]"

text \<open>
  numpy's reading of an integer index on an axis of size \<open>n\<close>: a negative index counts
  from the end, anything outside \<open>-n .. n-1\<close> raises \<open>IndexError\<close>. (An index too
  large for numpy's 64-bit index type is rejected with another exception; indices of that
  size are outside the data model and are reported as \<open>IndexError\<close> here.)
\<close>

definition np_index :: "nat \<Rightarrow> int \<Rightarrow> error + nat" where
  "np_index n i =
     (if 0 \<le> i \<and> i < int n then Inr (nat i)
      else if - int n \<le> i \<and> i < 0 then Inr (nat (i + int n))
      else Inl IndexError)"

text \<open>Sequencing of statements that may raise.\<close>

definition bindE :: "error + 'a \<Rightarrow> ('a \<Rightarrow> error + 'b) \<Rightarrow> error + 'b" where
  "bindE r f = (case r of Inl e \<Rightarrow> Inl e | Inr x \<Rightarrow> f x)"

text \<open>\<open>for x in xs: state = body(state, x)\<close>, stopping at the first exception.\<close>

fun foldE :: "('s \<Rightarrow> 'a \<Rightarrow> error + 's) \<Rightarrow> 'a list \<Rightarrow> 's \<Rightarrow> error + 's" where
  "foldE f [] s = Inr s"
| "foldE f (x # xs) s = bindE (f s x) (foldE f xs)"

text \<open>\<open>m[i, j] += v\<close> and \<open>m[i, j] -= v\<close> on a two-dimensional array.\<close>

definition iadd2 :: "'a::plus list list \<Rightarrow> int \<Rightarrow> int \<Rightarrow> 'a \<Rightarrow> error + 'a list list" where
  "iadd2 m i j v =
     bindE (np_index (length m) i) (\<lambda>r.
     bindE (np_index (length (m ! r)) j) (\<lambda>c.
     Inr (m[r := (m ! r)[c := m ! r ! c + v]])))"

definition isub2 :: "'a::minus list list \<Rightarrow> int \<Rightarrow> int \<Rightarrow> 'a \<Rightarrow> error + 'a list list" where
  "isub2 m i j v =
     bindE (np_index (length m) i) (\<lambda>r.
     bindE (np_index (length (m ! r)) j) (\<lambda>c.
     Inr (m[r := (m ! r)[c := m ! r ! c - v]])))"

text \<open>An array of shape \<open>(n, m)\<close>, and symmetry of a square one.\<close>

definition is_mat :: "nat \<Rightarrow> nat \<Rightarrow> 'a list list \<Rightarrow> bool" where
  "is_mat n m a = (length a = n \<and> list_all (\<lambda>row. length row = m) a)"

definition symmetric :: "'a list list \<Rightarrow> bool" where
  "symmetric a =
     list_all (\<lambda>i. list_all (\<lambda>j. a ! i ! j = a ! j ! i) [0..<length a]) [0..<length a]"

section \<open>Conductance matrix\<close>

text \<open>
  The body of the loop of \<open>calcConductanceMatrix\<close> for one node:
  \<^verbatim>\<open>
  ii = node.index
  g_mat[ii, ii] += node.g_l + node.g_c
  if node.parent_node is not None:
      jj = node.parent_node.index
      g_mat[jj,jj] += node.g_c
      g_mat[ii,jj] -= node.g_c
      g_mat[jj,ii] -= node.g_c
  \<close>
\<close>

definition cond_body :: "real list list \<Rightarrow> node \<Rightarrow> error + real list list" where
  "cond_body g_mat nd =
     (let ii = index nd in
      bindE (iadd2 g_mat ii ii (g_l nd + g_c nd)) (\<lambda>g1.
      case parent_node nd of
        None \<Rightarrow> Inr g1
      | Some jj \<Rightarrow>
          bindE (iadd2 g1 jj jj (g_c nd)) (\<lambda>g2.
          bindE (isub2 g2 ii jj (g_c nd)) (\<lambda>g3.
          isub2 g3 jj ii (g_c nd)))))"

definition calcConductanceMatrix :: "tree \<Rightarrow> error + real list list" where
  "calcConductanceMatrix self =
     foldE cond_body self (zeros (length self) (length self))"

text \<open>
  The contract in the words of the specification: what one node adds to entry \<open>(r, c)\<close>,
  and the matrix as the sum of what every node adds.
\<close>

definition node_adds :: "node \<Rightarrow> int \<Rightarrow> int \<Rightarrow> real" where
  "node_adds nd r c =
     (if r = index nd \<and> c = index nd then g_l nd + g_c nd else 0) +
     (case parent_node nd of
        None \<Rightarrow> 0
      | Some j \<Rightarrow>
          (if r = j \<and> c = j then g_c nd else 0)
          - (if r = index nd \<and> c = j then g_c nd else 0)
          - (if r = j \<and> c = index nd then g_c nd else 0))"

definition conductance_spec :: "tree \<Rightarrow> real list list" where
  "conductance_spec self =
     map (\<lambda>r. map (\<lambda>c. sum_list (map (\<lambda>nd. node_adds nd (int r) (int c)) self))
                [0..<length self]) [0..<length self]"

text \<open>Every index the code uses as a matrix coordinate is one of \<open>0 .. n-1\<close>.\<close>

definition indices_ok :: "tree \<Rightarrow> bool" where
  "indices_ok self =
     list_all (\<lambda>nd. 0 \<le> index nd \<and> index nd < int (length self) \<and>
                 (case parent_node nd of None \<Rightarrow> True
                  | Some j \<Rightarrow> 0 \<le> j \<and> j < int (length self))) self"

section \<open>System matrix\<close>

text \<open>
  \<open>a[:, i, j] += vs\<close> on an array of shape \<open>(len(vs), n1, n2)\<close>: one value per slice.
  The axis sizes are passed because the leading axis may be empty.
\<close>

definition iadd_stack2 ::
  "nat \<Rightarrow> nat \<Rightarrow> 'a::plus list list list \<Rightarrow> int \<Rightarrow> int \<Rightarrow> 'a list \<Rightarrow> error + 'a list list list" where
  "iadd_stack2 n1 n2 a i j vs =
     bindE (np_index n1 i) (\<lambda>r.
     bindE (np_index n2 j) (\<lambda>c.
     Inr (map2 (\<lambda>m v. m[r := (m ! r)[c := m ! r ! c + v]]) a vs)))"

text \<open>
  The result of \<open>calcSystemMatrix\<close>: the real conductance matrix when \<open>freqs\<close> is
  \<open>None\<close>, a complex array of shape \<open>(len(freqs), n, n)\<close> otherwise.
\<close>

datatype sysmat = Steady "real list list" | Stack "complex list list list"

text \<open>\<open>gc_mat[:, node.index, node.index] += freqs * node.ca\<close>\<close>

definition sys_body ::
  "nat \<Rightarrow> complex list \<Rightarrow> complex list list list \<Rightarrow> node \<Rightarrow> error + complex list list list" where
  "sys_body n freqs gc_mat nd =
     iadd_stack2 n n gc_mat (index nd) (index nd)
       (map (\<lambda>f. f * complex_of_real (ca nd)) freqs)"

text \<open>
  \<open>calcConductanceMatrix().astype(complex)[np.newaxis,:,:] *
   np.ones(len(freqs), dtype=complex)[:,np.newaxis,np.newaxis]\<close>
\<close>

definition broadcast_complex :: "nat \<Rightarrow> real list list \<Rightarrow> complex list list list" where
  "broadcast_complex m g =
     map (\<lambda>one. map (map (\<lambda>x. complex_of_real x * one)) g) (replicate m 1)"

definition calcSystemMatrix :: "complex list option \<Rightarrow> tree \<Rightarrow> error + sysmat" where
  "calcSystemMatrix freqs self =
     (case freqs of
        None \<Rightarrow> bindE (calcConductanceMatrix self) (\<lambda>gc_mat. Inr (Steady gc_mat))
      | Some fs \<Rightarrow>
          bindE (calcConductanceMatrix self) (\<lambda>g.
          bindE (foldE (sys_body (length self) fs) self (broadcast_complex (length fs) g))
            (\<lambda>gc_mat. Inr (Stack gc_mat))))"

section \<open>Structure tensor and parameter vector of the conductances\<close>

text \<open>\<open>_toVecG\<close>: the root gives its leak, every other node its coupling and its leak.\<close>

fun toVecG :: "tree \<Rightarrow> real list" where
  "toVecG [] = []"
| "toVecG (nd # nds) =
     (case parent_node nd of None \<Rightarrow> [g_l nd] | Some _ \<Rightarrow> [g_c nd, g_l nd]) @ toVecG nds"

text \<open>\<open>a[i, j, k] += v\<close> and \<open>a[i, j, k] -= v\<close> on a three-dimensional array.\<close>

definition iadd3 ::
  "'a::plus list list list \<Rightarrow> int \<Rightarrow> int \<Rightarrow> int \<Rightarrow> 'a \<Rightarrow> error + 'a list list list" where
  "iadd3 a i j k v =
     bindE (np_index (length a) i) (\<lambda>r.
     bindE (np_index (length (a ! r)) j) (\<lambda>c.
     bindE (np_index (length (a ! r ! c)) k) (\<lambda>d.
     Inr (a[r := (a ! r)[c := (a ! r ! c)[d := a ! r ! c ! d + v]]]))))"

definition isub3 ::
  "'a::minus list list list \<Rightarrow> int \<Rightarrow> int \<Rightarrow> int \<Rightarrow> 'a \<Rightarrow> error + 'a list list list" where
  "isub3 a i j k v =
     bindE (np_index (length a) i) (\<lambda>r.
     bindE (np_index (length (a ! r)) j) (\<lambda>c.
     bindE (np_index (length (a ! r ! c)) k) (\<lambda>d.
     Inr (a[r := (a ! r)[c := (a ! r ! c)[d := a ! r ! c ! d - v]]]))))"

definition zeros3 :: "nat \<Rightarrow> nat \<Rightarrow> nat \<Rightarrow> 'a::zero list list list" where
  "zeros3 n m p = replicate n (replicate m (replicate p 0))"

text \<open>
  The body of the loop of \<open>_toStructureTensorG\<close>:
  \<^verbatim>\<open>
  ii = node.index
  if node.parent_node == None:
      g_struct[0, 0, 0] += 1
  else:
      kk = 2 * node.index - 1
      jj = node.parent_node.index
      g_struct[ii, jj, kk] -= 1.
      g_struct[jj, ii, kk] -= 1.
      g_struct[jj, jj, kk] += 1.
      g_struct[ii, ii, kk] += 1.
      g_struct[ii, ii, kk+1] += 1.
  \<close>
\<close>

definition structG_body :: "real list list list \<Rightarrow> node \<Rightarrow> error + real list list list" where
  "structG_body g_struct nd =
     (let ii = index nd in
      case parent_node nd of
        None \<Rightarrow> iadd3 g_struct 0 0 0 1
      | Some jj \<Rightarrow>
          (let kk = 2 * index nd - 1 in
           bindE (isub3 g_struct ii jj kk 1) (\<lambda>s1.
           bindE (isub3 s1 jj ii kk 1) (\<lambda>s2.
           bindE (iadd3 s2 jj jj kk 1) (\<lambda>s3.
           bindE (iadd3 s3 ii ii kk 1) (\<lambda>s4.
           iadd3 s4 ii ii (kk + 1) 1))))))"

definition toStructureTensorG :: "tree \<Rightarrow> error + real list list list" where
  "toStructureTensorG self =
     (let g_vec = toVecG self in
      foldE structG_body self (zeros3 (length self) (length self) (length g_vec)))"

text \<open>
  The contraction \<open>\<Sum>k. v[k] * S[:,:,k]\<close> of a structure tensor with a parameter
  vector, as the specification writes it.
\<close>

definition dot :: "'a::semiring_0 list \<Rightarrow> 'a list \<Rightarrow> 'a" where
  "dot xs ys = sum_list (map2 (\<lambda>x y. x * y) xs ys)"

definition tensor_dot :: "'a::semiring_0 list list list \<Rightarrow> 'a list \<Rightarrow> 'a list list" where
  "tensor_dot s v = map (map (\<lambda>cell. dot cell v)) s"

section \<open>Writing parameters back\<close>

text \<open>
  A method that assigns node fields returns the tree as the call leaves it, together with
  the exception that ended the call, if any: an assignment made before a later statement
  raises stays made.
\<close>

type_synonym outcome = "tree \<times> error option"

text \<open>\<open>xs[i]\<close> on a one-dimensional array.\<close>

definition get1 :: "'a list \<Rightarrow> int \<Rightarrow> error + 'a" where
  "get1 xs i = bindE (np_index (length xs) i) (\<lambda>k. Inr (xs ! k))"

text \<open>
  The body of the loop of \<open>_toTreeG\<close> at position \<open>ii\<close> of the enumeration:
  \<^verbatim>\<open>
  if node.parent_node is None:
      node.g_l = g_vec[ii]
  else:
      node.g_c = g_vec[2*ii-1]
      node.g_l = g_vec[2*ii]
  \<close>
\<close>

definition toTreeG_body :: "real list \<Rightarrow> int \<Rightarrow> node \<Rightarrow> node \<times> error option" where
  "toTreeG_body g_vec ii nd =
     (case parent_node nd of
        None \<Rightarrow>
          (case get1 g_vec ii of
             Inl e \<Rightarrow> (nd, Some e)
           | Inr v \<Rightarrow> (nd\<lparr>g_l := v\<rparr>, None))
      | Some _ \<Rightarrow>
          (case get1 g_vec (2 * ii - 1) of
             Inl e \<Rightarrow> (nd, Some e)
           | Inr v \<Rightarrow>
               (case get1 g_vec (2 * ii) of
                  Inl e \<Rightarrow> (nd\<lparr>g_c := v\<rparr>, Some e)
                | Inr w \<Rightarrow> (nd\<lparr>g_c := v, g_l := w\<rparr>, None))))"

text \<open>\<open>for ii, node in enumerate(self): body\<close>, from position \<open>ii\<close> on.\<close>

fun enumerate_nodes ::
  "(int \<Rightarrow> node \<Rightarrow> node \<times> error option) \<Rightarrow> int \<Rightarrow> node list \<Rightarrow> outcome" where
  "enumerate_nodes body ii [] = ([], None)"
| "enumerate_nodes body ii (nd # nds) =
     (case body ii nd of
        (nd', Some e) \<Rightarrow> (nd' # nds, Some e)
      | (nd', None) \<Rightarrow>
          (case enumerate_nodes body (ii + 1) nds of (nds', r) \<Rightarrow> (nd' # nds', r)))"

definition toTreeG :: "real list \<Rightarrow> tree \<Rightarrow> outcome" where
  "toTreeG g_vec self = enumerate_nodes (toTreeG_body g_vec) 0 self"

text \<open>\<open>_toTreeC\<close>: \<open>node.ca = c_vec[ii]\<close> at position \<open>ii\<close> of the enumeration.\<close>

definition toTreeC_body :: "real list \<Rightarrow> int \<Rightarrow> node \<Rightarrow> node \<times> error option" where
  "toTreeC_body c_vec ii nd =
     (case get1 c_vec ii of
        Inl e \<Rightarrow> (nd, Some e)
      | Inr v \<Rightarrow> (nd\<lparr>ca := v\<rparr>, None))"

definition toTreeC :: "real list \<Rightarrow> tree \<Rightarrow> outcome" where
  "toTreeC c_vec self = enumerate_nodes (toTreeC_body c_vec) 0 self"

section \<open>Fitting the conductances\<close>

text \<open>
  \<open>scipy.linalg.lstsq\<close> and \<open>numpy.linalg.inv\<close> are library routines, not code of
  this repository: the functions that call them take them as parameters. A solver maps a
  feature matrix and a target vector to the solution \<open>res[0]\<close> or to an exception;
  an inverter maps a matrix to what \<open>numpy.linalg.inv\<close> returns for it or to an
  exception.
\<close>

type_synonym 'a solver = "'a list list \<Rightarrow> 'a list \<Rightarrow> error + 'a list"


text \<open>
  A statement of a method that may raise: the exception leaves the method with the tree as
  it is at that moment.
\<close>

definition tryE :: "error + 'a \<Rightarrow> tree \<Rightarrow> ('a \<Rightarrow> outcome) \<Rightarrow> outcome" where
  "tryE r self f = (case r of Inl e \<Rightarrow> (self, Some e) | Inr x \<Rightarrow> f x)"

text \<open>
  \<open>np.einsum('ij,jkl->ikl', z, s)\<close> for \<open>s\<close> of shape \<open>(n, n2, p)\<close>: the rows of
  \<open>z\<close> must have length \<open>n\<close>, or numpy reports the mismatch of axis \<open>j\<close>. (numpy
  would stretch an axis of size one; operands of that kind are outside the documented
  shapes of the callers and are reported as a mismatch here.)
\<close>

definition contract_ij_jkl ::
  "nat \<Rightarrow> nat \<Rightarrow> nat \<Rightarrow> 'a::comm_semiring_0 list list \<Rightarrow> 'a list list list \<Rightarrow> 'a list list list" where
  "contract_ij_jkl n n2 p z s =
     map (\<lambda>zrow. map (\<lambda>k. map (\<lambda>l. sum_list (map (\<lambda>j. zrow ! j * s ! j ! k ! l) [0..<n]))
                              [0..<p]) [0..<n2]) z"

definition einsum_ij_jkl ::
  "nat \<Rightarrow> nat \<Rightarrow> nat \<Rightarrow> 'a::comm_semiring_0 list list \<Rightarrow> 'a list list list
     \<Rightarrow> error + 'a list list list" where
  "einsum_ij_jkl n n2 p z s =
     (if list_all (\<lambda>zrow. length zrow = n) z then Inr (contract_ij_jkl n n2 p z s)
      else Inl ValueError)"

text \<open>
  \<open>computeG\<close>:
  \<^verbatim>\<open>
  g_struct = self._toStructureTensorG()
  tensor_feature = np.einsum('ij,jkl->ikl', z_mat, g_struct)
  tshape = tensor_feature.shape
  mat_feature = np.reshape(tensor_feature, (tshape[0]*tshape[1], tshape[2]))
  vec_target = np.reshape(np.eye(len(self)), (len(self)*len(self),))
  res = la.lstsq(mat_feature, vec_target)
  g_vec = res[0]
  self._toTreeG(g_vec)
  \<close>
  Reshaping a row-major array of shape \<open>(a, n, p)\<close> to \<open>(a*n, p)\<close> concatenates its
  leading axis.
\<close>

definition computeG :: "real solver \<Rightarrow> real list list \<Rightarrow> tree \<Rightarrow> outcome" where
  "computeG lstsq z_mat self =
     tryE (toStructureTensorG self) self (\<lambda>g_struct.
     tryE (einsum_ij_jkl (length self) (length self) (length (toVecG self)) z_mat g_struct) self
       (\<lambda>tensor_feature.
     let mat_feature = concat tensor_feature;
         vec_target = concat (eye (length self))
     in tryE (lstsq mat_feature vec_target) self (\<lambda>g_vec.
        toTreeG g_vec self)))"

section \<open>Fitting the capacitances\<close>

text \<open>\<open>_toVecC\<close>\<close>

definition toVecC :: "tree \<Rightarrow> real list" where
  "toVecC self = map ca self"

text \<open>\<open>a[:, i, j, k] += vs\<close> on an array of shape \<open>(len(vs), n1, n2, n3)\<close>.\<close>

definition iadd_stack3 ::
  "nat \<Rightarrow> nat \<Rightarrow> nat \<Rightarrow> 'a::plus list list list list \<Rightarrow> int \<Rightarrow> int \<Rightarrow> int \<Rightarrow> 'a list
     \<Rightarrow> error + 'a list list list list" where
  "iadd_stack3 n1 n2 n3 a i j k vs =
     bindE (np_index n1 i) (\<lambda>r.
     bindE (np_index n2 j) (\<lambda>c.
     bindE (np_index n3 k) (\<lambda>d.
     Inr (map2 (\<lambda>t v. t[r := (t ! r)[c := (t ! r ! c)[d := t ! r ! c ! d + v]]]) a vs))))"

text \<open>
  \<open>_toStructureTensorC\<close>:
  \<^verbatim>\<open>
  c_vec = self._toVecC()
  c_struct = np.zeros((len(freqs), len(self), len(self), len(c_vec)), dtype=complex)
  for node in self:
      ii = node.index
      c_struct[:, ii, ii, ii] += freqs
  return c_struct
  \<close>
\<close>

definition structC_body ::
  "nat \<Rightarrow> nat \<Rightarrow> complex list \<Rightarrow> complex list list list list \<Rightarrow> node
     \<Rightarrow> error + complex list list list list" where
  "structC_body n nc freqs c_struct nd =
     (let ii = index nd in iadd_stack3 n n nc c_struct ii ii ii freqs)"

definition toStructureTensorC :: "complex list \<Rightarrow> tree \<Rightarrow> error + complex list list list list" where
  "toStructureTensorC freqs self =
     (let c_vec = toVecC self in
      foldE (structC_body (length self) (length c_vec) freqs) self
        (replicate (length freqs) (zeros3 (length self) (length self) (length c_vec))))"

text \<open>
  \<open>np.einsum('oij,ojkl->oikl', zf, cs)\<close> for \<open>cs\<close> of shape \<open>(m, n, n2, p)\<close>: the
  leading axes must agree and the rows of every slice of \<open>zf\<close> must have length \<open>n\<close>.
  (As above, numpy would stretch an axis of size one, a single frequency for instance;
  operands of that kind are outside the documented shapes and are reported as a mismatch.)
\<close>

definition einsum_oij_ojkl ::
  "nat \<Rightarrow> nat \<Rightarrow> nat \<Rightarrow> 'a::comm_semiring_0 list list list \<Rightarrow> 'a list list list list
     \<Rightarrow> error + 'a list list list list" where
  "einsum_oij_ojkl n n2 p zf cs =
     (if length zf = length cs \<and> list_all (list_all (\<lambda>zrow. length zrow = n)) zf
      then Inr (map2 (contract_ij_jkl n n2 p) zf cs)
      else Inl ValueError)"

text \<open>
  \<open>np.einsum('oij,jk->oik', zf_mat, g_mat)\<close> for the real \<open>g_mat\<close> of shape \<open>(n, n)\<close>;
  the shape of \<open>zf_mat\<close> has been checked by the contraction before it.
\<close>

definition einsum_oij_jk ::
  "nat \<Rightarrow> complex list list list \<Rightarrow> real list list \<Rightarrow> complex list list list" where
  "einsum_oij_jk n zf g =
     map (map (\<lambda>zrow. map (\<lambda>k. sum_list (map (\<lambda>j. zrow ! j * complex_of_real (g ! j ! k))
                                           [0..<n])) [0..<n])) zf"

text \<open>
  \<open>np.eye(n)[np.newaxis,:,:] - zg_prod\<close>: the identity is subtracted from slices of
  shape \<open>(n, n)\<close>; the number of rows of a slice must be \<open>n\<close>. (numpy would stretch
  a slice with a single row; such a target is outside the documented shapes and is
  reported as a mismatch.)
\<close>

definition eye_minus :: "nat \<Rightarrow> complex list list list \<Rightarrow> error + complex list list list" where
  "eye_minus n zg =
     (if list_all (\<lambda>sl. length sl = n) zg
      then Inr (map (\<lambda>sl. map2 (map2 (\<lambda>e x. e - x)) (eye n) sl) zg)
      else Inl ValueError)"

text \<open>
  \<open>computeC\<close>:
  \<^verbatim>\<open>
  c_struct = self._toStructureTensorC(freqs)
  tensor_feature = np.einsum('oij,ojkl->oikl', zf_mat, c_struct)
  tshape = tensor_feature.shape
  mat_feature = np.reshape(tensor_feature, (tshape[0]*tshape[1]*tshape[2], tshape[3]))
  g_mat = self.calcConductanceMatrix()
  zg_prod = np.einsum('oij,jk->oik', zf_mat, g_mat)
  mat_target = np.eye(len(self))[np.newaxis,:,:] - zg_prod
  vec_target = np.reshape(mat_target,(tshape[0]*tshape[1]*tshape[2],))
  res = la.lstsq(mat_feature, vec_target)
  c_vec = res[0].real
  self._toTreeC(c_vec)
  \<close>
\<close>

definition computeC ::
  "complex solver \<Rightarrow> complex list \<Rightarrow> complex list list list \<Rightarrow> tree \<Rightarrow> outcome" where
  "computeC lstsq freqs zf_mat self =
     tryE (toStructureTensorC freqs self) self (\<lambda>c_struct.
     tryE (einsum_oij_ojkl (length self) (length self) (length (toVecC self)) zf_mat c_struct)
       self (\<lambda>tensor_feature.
     let mat_feature = concat (concat tensor_feature) in
     tryE (calcConductanceMatrix self) self (\<lambda>g_mat.
     let zg_prod = einsum_oij_jk (length self) zf_mat g_mat in
     tryE (eye_minus (length self) zg_prod) self (\<lambda>mat_target.
     let vec_target = concat (concat mat_target) in
     tryE (lstsq mat_feature vec_target) self (\<lambda>res0.
     let c_vec = map Re res0 in
     toTreeC c_vec self)))))"

section \<open>The combined fit\<close>

text \<open>
  The values the names of \<open>computeGC\<close>'s scope are bound to: its parameters, and the
  names the module binds (\<open>np\<close>, \<open>la\<close>, \<open>SNode\<close>, \<open>STree\<close> and the two classes).
  No Python builtin is called \<open>kwargs\<close>.
\<close>

datatype pyval =
  PTree tree
| PFreqs "complex list"
| PStack "complex list list list"
| PMat "real list list option"
| PModule
| PClass
| PDict "(string \<times> real list list) list"

definition name_lookup :: "(string \<times> pyval) list \<Rightarrow> string \<Rightarrow> error + pyval" where
  "name_lookup scope name =
     (case map_of scope name of None \<Rightarrow> Inl NameError | Some v \<Rightarrow> Inr v)"

definition computeGC_scope ::
  "tree \<Rightarrow> complex list \<Rightarrow> complex list list list \<Rightarrow> real list list option
     \<Rightarrow> (string \<times> pyval) list" where
  "computeGC_scope self freqs zf_mat z_mat =
     [(''self'', PTree self), (''freqs'', PFreqs freqs), (''zf_mat'', PStack zf_mat),
      (''z_mat'', PMat z_mat),
      (''np'', PModule), (''la'', PModule), (''SNode'', PClass), (''STree'', PClass),
      (''CompartmentNode'', PClass), (''CompartmentTree'', PClass)]"

text \<open>
  \<open>computeGC(self, freqs, zf_mat, z_mat=None)\<close>:
  \<^verbatim>\<open>
  if 'z_mat' in kwargs:
      z_mat = kwargs['z_mat']
  else:
      try:
          ind0 = np.where(np.abs(freqs) < 1e-12)[0]
          z_mat = zf_mat[ind0,:,:].real
      except IndexError:
          raise ValueError("No zero frequency in `freqs`")
  self.computeG(z_mat)
  self.computeC(freqs, zf_mat)
  \<close>
  The first statement reads the name \<open>kwargs\<close>. In the \<open>else\<close> branch \<open>ind0\<close> is an
  array of positions, so \<open>zf_mat[ind0,:,:]\<close> is three-dimensional (empty when no
  frequency is near zero), and \<open>computeG\<close>, once it has built its structure tensor, has
  its \<open>einsum('ij,jkl->ikl', ...)\<close> reject a three-dimensional first operand with a
  \<open>ValueError\<close>; an \<open>IndexError\<close> of the indexing is turned into a \<open>ValueError\<close>
  by the handler.
\<close>

definition computeGC ::
  "real solver \<Rightarrow> complex solver \<Rightarrow> complex list \<Rightarrow> complex list list list
     \<Rightarrow> real list list option \<Rightarrow> tree \<Rightarrow> outcome" where
  "computeGC lstsq_r lstsq_c freqs zf_mat z_mat self =
     tryE (name_lookup (computeGC_scope self freqs zf_mat z_mat) ''kwargs'') self (\<lambda>kwargs.
     case kwargs of
       PDict d \<Rightarrow>
         (case map_of d ''z_mat'' of
            Some z \<Rightarrow>
              (case computeG lstsq_r z self of
                 (self1, Some e) \<Rightarrow> (self1, Some e)
               | (self1, None) \<Rightarrow> computeC lstsq_c freqs zf_mat self1)
          | None \<Rightarrow>
              (let ind0 = filter (\<lambda>i. cmod (freqs ! i) < 1 / 10 ^ 12) [0..<length freqs] in
               if list_all (\<lambda>i. i < length zf_mat) ind0
               then tryE (toStructureTensorG self) self (\<lambda>g_struct. (self, Some ValueError))
               else (self, Some ValueError)))
     | _ \<Rightarrow> (self, Some TypeError))"

section \<open>Impedance matrix\<close>



section \<open>Example trees\<close>

text \<open>
  The two-node tree of the specification's concrete scenario: root index 0, child index 1,
  \<open>g_l = [0.01, 0.01]\<close>, \<open>g_c[1] = 0.02\<close>, \<open>ca = [1.0, 1.0]\<close>, the root's coupling
  conductance at the constructor's default 0.
\<close>

definition two_node :: tree where
  "two_node =
     [\<lparr>index = 0, parent_node = None, ca = 1, g_c = 0, g_l = 1 / 100\<rparr>,
      \<lparr>index = 1, parent_node = Some 0, ca = 1, g_c = 2 / 100, g_l = 1 / 100\<rparr>]"

text \<open>A single root node, and the same node with a coupling conductance of 1/2.\<close>

definition root_only :: tree where
  "root_only = [\<lparr>index = 0, parent_node = None, ca = 1, g_c = 0, g_l = 1 / 100\<rparr>]"

definition root_coupled :: tree where
  "root_coupled = [\<lparr>index = 0, parent_node = None, ca = 1, g_c = 1 / 2, g_l = 1 / 100\<rparr>]"

text \<open>A three-node branch: one root and two children.\<close>

definition branch3 :: tree where
  "branch3 =
     [\<lparr>index = 0, parent_node = None, ca = 1, g_c = 0, g_l = 1 / 100\<rparr>,
      \<lparr>index = 1, parent_node = Some 0, ca = 2, g_c = 2 / 100, g_l = 3 / 100\<rparr>,
      \<lparr>index = 2, parent_node = Some 0, ca = 3, g_c = 4 / 100, g_l = 5 / 100\<rparr>]"

text \<open>
  The contract of the system matrix in the words of the specification: at frequency \<open>f\<close>
  a node adds \<open>f * ca\<close> to its own diagonal entry, and the slice is the conductance
  matrix plus what every node adds.
\<close>

definition cap_adds :: "node \<Rightarrow> complex \<Rightarrow> int \<Rightarrow> int \<Rightarrow> complex" where
  "cap_adds nd f r c = (if r = index nd \<and> c = index nd then f * complex_of_real (ca nd) else 0)"

definition system_of :: "real list list \<Rightarrow> complex list \<Rightarrow> tree \<Rightarrow> complex list list list" where
  "system_of g freqs self =
     map (\<lambda>f. map (\<lambda>r. map (\<lambda>c. complex_of_real (g ! r ! c) +
                                 sum_list (map (\<lambda>nd. cap_adds nd f (int r) (int c)) self))
                         [0..<length self]) [0..<length self]) freqs"

text \<open>An array of shape \<open>(m, n1, n2)\<close>.\<close>

definition is_stack :: "nat \<Rightarrow> nat \<Rightarrow> nat \<Rightarrow> 'a list list list \<Rightarrow> bool" where
  "is_stack m n1 n2 a = (length a = m \<and> list_all (is_mat n1 n2) a)"

text \<open>Symmetry of every matrix a system matrix holds.\<close>

definition symmetric_sys :: "sysmat \<Rightarrow> bool" where
  "symmetric_sys s = (case s of Steady g \<Rightarrow> symmetric g | Stack st \<Rightarrow> list_all symmetric st)"

text \<open>A symmetric array of shape \<open>(n, n)\<close>, entry by entry.\<close>

definition sym_mat :: "nat \<Rightarrow> 'a list list \<Rightarrow> bool" where
  "sym_mat n g = (is_mat n n g \<and> (\<forall>r<n. \<forall>c<n. g ! r ! c = g ! c ! r))"

section \<open>Inverses\<close>

text \<open>
  The product of two \<open>n \<times> n\<close> matrices, and what it means for \<open>z\<close> to be the
  inverse of \<open>a\<close>. A matrix is singular when it has no inverse.
\<close>

definition mat_mul :: "nat \<Rightarrow> 'a::comm_semiring_0 list list \<Rightarrow> 'a list list \<Rightarrow> 'a list list" where
  "mat_mul n a b =
     map (\<lambda>i. map (\<lambda>k. sum_list (map (\<lambda>j. a ! i ! j * b ! j ! k) [0..<n])) [0..<n]) [0..<n]"

definition inverse_of :: "nat \<Rightarrow> 'a::comm_semiring_1 list list \<Rightarrow> 'a list list \<Rightarrow> bool" where
  "inverse_of n a z = (is_mat n n z \<and> mat_mul n a z = eye n \<and> mat_mul n z a = eye n)"



text \<open>
  The conductance matrix of the two-node tree and its inverse, and its system matrix at
  frequency 1 with its inverse.
\<close>

definition G_two_node :: "real list list" where
  "G_two_node = [[3 / 100, - (1 / 50)], [- (1 / 50), 3 / 100]]"

definition Z_two_node :: "real list list" where
  "Z_two_node = [[60, 40], [40, 60]]"


definition Z1_two_node :: "complex list list" where
  "Z1_two_node = [[2060 / 2121, 40 / 2121], [40 / 2121, 2060 / 2121]]"

section \<open>Trees in canonical order\<close>

text \<open>
  The invariant of the data model: the index of a node is its position in the iteration
  order, the first node is the root and the only node without a parent, and a parent comes
  before its children (the iteration is depth-first from the root).
\<close>

definition wf_tree :: "tree \<Rightarrow> bool" where
  "wf_tree self =
     list_all (\<lambda>p. index (self ! p) = int p \<and>
                  (case parent_node (self ! p) of
                     None \<Rightarrow> p = 0
                   | Some j \<Rightarrow> 0 < p \<and> 0 \<le> j \<and> j < int p))
       [0..<length self]"

text \<open>An array of shape \<open>(n1, n2, n3)\<close>.\<close>

definition is_arr3 :: "nat \<Rightarrow> nat \<Rightarrow> nat \<Rightarrow> 'a list list list \<Rightarrow> bool" where
  "is_arr3 n1 n2 n3 a = (length a = n1 \<and> list_all (is_mat n2 n3) a)"

text \<open>
  The structure tensor in the words of the specification: what one node adds to entry
  \<open>(r, c, k)\<close>. The root adds 1 at \<open>(0, 0, 0)\<close>; a node \<open>i\<close> with parent \<open>j\<close> adds
  the pattern of a unit coupling conductance at slot \<open>2 i - 1\<close> and of a unit leak at slot
  \<open>2 i\<close>.
\<close>

definition struct_adds :: "node \<Rightarrow> int \<Rightarrow> int \<Rightarrow> int \<Rightarrow> real" where
  "struct_adds nd r c k =
     (case parent_node nd of
        None \<Rightarrow> (if r = 0 \<and> c = 0 \<and> k = 0 then 1 else 0)
      | Some j \<Rightarrow>
          - (if r = index nd \<and> c = j \<and> k = 2 * index nd - 1 then 1 else 0)
          - (if r = j \<and> c = index nd \<and> k = 2 * index nd - 1 then 1 else 0)
          + (if r = j \<and> c = j \<and> k = 2 * index nd - 1 then 1 else 0)
          + (if r = index nd \<and> c = index nd \<and> k = 2 * index nd - 1 then 1 else 0)
          + (if r = index nd \<and> c = index nd \<and> k = 2 * index nd - 1 + 1 then 1 else 0))"

definition structG_spec :: "tree \<Rightarrow> real list list list" where
  "structG_spec self =
     map (\<lambda>r. map (\<lambda>c. map (\<lambda>k. sum_list (map (\<lambda>nd. struct_adds nd (int r) (int c) (int k)) self))
                          [0..<length (toVecG self)])
                [0..<length self]) [0..<length self]"

text \<open>A node whose coordinates and parameter slots the structure tensor has room for.\<close>

definition slots_ok :: "nat \<Rightarrow> nat \<Rightarrow> node \<Rightarrow> bool" where
  "slots_ok n p nd =
     (case parent_node nd of
        None \<Rightarrow> 0 < n \<and> 0 < p
      | Some j \<Rightarrow> 0 \<le> index nd \<and> index nd < int n \<and> 0 \<le> j \<and> j < int n \<and>
                  1 \<le> index nd \<and> 2 * index nd < int p)"

text \<open>
  What one node contributes to entry \<open>(r, c)\<close> of the contraction of the structure tensor
  with a parameter vector \<open>x\<close>.
\<close>

definition param_adds :: "real list \<Rightarrow> node \<Rightarrow> int \<Rightarrow> int \<Rightarrow> real" where
  "param_adds x nd r c =
     (case parent_node nd of
        None \<Rightarrow> (if r = 0 \<and> c = 0 then x ! 0 else 0)
      | Some j \<Rightarrow>
          (- (if r = index nd \<and> c = j then 1 else 0)
           - (if r = j \<and> c = index nd then 1 else 0)
           + (if r = j \<and> c = j then 1 else 0)
           + (if r = index nd \<and> c = index nd then 1 else 0)) * x ! nat (2 * index nd - 1)
          + (if r = index nd \<and> c = index nd then x ! nat (2 * index nd) else 0))"

section \<open>Least squares\<close>

text \<open>
  The squared residual of \<open>x\<close> for the system \<open>A x = b\<close>, and what
  \<open>scipy.linalg.lstsq\<close> documents of its result: a vector with one entry per column that
  minimises the residual, of least norm among the minimisers.
\<close>

definition resid :: "'a::real_normed_field list list \<Rightarrow> 'a list \<Rightarrow> 'a list \<Rightarrow> real" where
  "resid A b x = sum_list (map2 (\<lambda>row t. (norm (dot row x - t))\<^sup>2) A b)"

definition least_squares :: "nat \<Rightarrow> 'a::real_normed_field list list \<Rightarrow> 'a list \<Rightarrow> 'a list \<Rightarrow> bool" where
  "least_squares p A b x =
     (length x = p \<and> (\<forall>y. length y = p \<longrightarrow> resid A b x \<le> resid A b y))"

definition min_norm_least_squares ::
  "nat \<Rightarrow> 'a::real_normed_field list list \<Rightarrow> 'a list \<Rightarrow> 'a list \<Rightarrow> bool" where
  "min_norm_least_squares p A b x =
     (least_squares p A b x \<and>
      (\<forall>y. least_squares p A b y \<longrightarrow>
         sum_list (map (\<lambda>v. (norm v)\<^sup>2) x) \<le> sum_list (map (\<lambda>v. (norm v)\<^sup>2) y)))"

section \<open>The fits in the words of the specification\<close>

text \<open>
  The capacitance structure tensor: \<open>S[f, i, i, i] = freqs[f]\<close> for every node \<open>i\<close>,
  zero elsewhere.
\<close>

definition structC_spec :: "complex list \<Rightarrow> nat \<Rightarrow> complex list list list list" where
  "structC_spec freqs n =
     map (\<lambda>f. map (\<lambda>r. map (\<lambda>c. map (\<lambda>k. if r = c \<and> c = k then f else 0) [0..<n])
                          [0..<n]) [0..<n]) freqs"

text \<open>
  The feature matrix of \<open>computeC\<close> as the specification writes it, entry by entry:
  \<open>feature[f,i,k,l] = \<Sum>j. zf[f,i,j] * S[f,j,k,l]\<close> with \<open>S\<close> the capacitance
  structure tensor, the axes \<open>(f, i, k)\<close> flattened into rows and \<open>l\<close> the column.
  Its target is \<open>I - zf \<cdot> G\<close> per frequency, flattened to match.
\<close>

definition featureC :: "complex list \<Rightarrow> complex list list list \<Rightarrow> nat \<Rightarrow> complex list list" where
  "featureC freqs zf n =
     concat (concat (map (\<lambda>f. map (\<lambda>i. map (\<lambda>k. map (\<lambda>l.
         sum_list (map (\<lambda>j. zf ! f ! i ! j * structC_spec freqs n ! f ! j ! k ! l) [0..<n]))
       [0..<n]) [0..<n]) [0..<n]) [0..<length freqs]))"

definition targetC :: "complex list list list \<Rightarrow> real list list \<Rightarrow> nat \<Rightarrow> complex list" where
  "targetC zf g n =
     concat (concat (map (\<lambda>f. map (\<lambda>i. map (\<lambda>k.
         (if i = k then 1 else 0) -
         sum_list (map (\<lambda>j. zf ! f ! i ! j * complex_of_real (g ! j ! k)) [0..<n]))
       [0..<n]) [0..<n]) [0..<length zf]))"

text \<open>
  The feature matrix of \<open>computeG\<close>, entry by entry:
  \<open>feature[i,k,l] = \<Sum>j. Z[i,j] * S[j,k,l]\<close> with \<open>S\<close> the structure tensor of the
  conductances, the axes \<open>(i, k)\<close> flattened into rows and \<open>l\<close> the column; its target
  is the flattened identity.
\<close>

definition featureG :: "real list list \<Rightarrow> tree \<Rightarrow> real list list" where
  "featureG z self =
     concat (map (\<lambda>i. map (\<lambda>k. map (\<lambda>l.
         sum_list (map (\<lambda>j. z ! i ! j * structG_spec self ! j ! k ! l) [0..<length self]))
       [0..<length (toVecG self)]) [0..<length self]) [0..<length self])"

text \<open>An array of shape \<open>(m, n1, n2, n3)\<close>.\<close>

definition is_arr4 :: "nat \<Rightarrow> nat \<Rightarrow> nat \<Rightarrow> nat \<Rightarrow> 'a list list list list \<Rightarrow> bool" where
  "is_arr4 m n1 n2 n3 a = (length a = m \<and> list_all (is_arr3 n1 n2 n3) a)"

text \<open>The tree \<open>_toTreeG\<close> leaves behind, for a tree in canonical order.\<close>

definition fitG :: "real list \<Rightarrow> tree \<Rightarrow> tree" where
  "fitG x self =
     map (\<lambda>q. if q = 0 then (self ! q)\<lparr>g_l := x ! 0\<rparr>
              else (self ! q)\<lparr>g_c := x ! (2 * q - 1), g_l := x ! (2 * q)\<rparr>) [0..<length self]"


text \<open>
  A solver that answers \<open>x\<close> to the system with feature matrix \<open>A\<close> and target
  \<open>b\<close>, and rejects every other system.
\<close>

definition checked_solver :: "'a list list \<Rightarrow> 'a list \<Rightarrow> 'a list \<Rightarrow> 'a solver" where
  "checked_solver A b x A' b' = (if A' = A \<and> b' = b then Inr x else Inl ValueError)"

text \<open>A solver that answers \<open>x\<close> to every system.\<close>

definition const_solver :: "'a list \<Rightarrow> 'a solver" where
  "const_solver x A b = Inr x"

text \<open>The two-node topology with placeholder parameters, the root's coupling at the
  constructor's default 0.\<close>

definition two_fresh :: tree where
  "two_fresh =
     [\<lparr>index = 0, parent_node = None, ca = 5, g_c = 0, g_l = 7\<rparr>,
      \<lparr>index = 1, parent_node = Some 0, ca = 5, g_c = 9, g_l = 7\<rparr>]"

text \<open>The same matrices with complex entries, and the feature matrix of the conductance
  fit of the two-node tree.\<close>

definition Gc_two_node :: "complex list list" where
  "Gc_two_node = [[3 / 100, - (1 / 50)], [- (1 / 50), 3 / 100]]"

definition Zc_two_node :: "complex list list" where
  "Zc_two_node = [[60, 40], [40, 60]]"

definition featureG_two_node :: "real list list" where
  "featureG_two_node = [[60, 20, 0], [0, - 20, 40], [40, - 20, 0], [0, 20, 60]]"

text \<open>The fitted two-node tree before its capacitances are fitted, and the feature matrix
  and target of its capacitance fit at the frequencies 0 and 1.\<close>

definition two_fit :: tree where
  "two_fit =
     [\<lparr>index = 0, parent_node = None, ca = 5, g_c = 0, g_l = 1 / 100\<rparr>,
      \<lparr>index = 1, parent_node = Some 0, ca = 5, g_c = 1 / 50, g_l = 1 / 100\<rparr>]"

definition featureC_two_node :: "complex list list" where
  "featureC_two_node =
     [[0, 0], [0, 0], [0, 0], [0, 0],
      [2060 / 2121, 0], [0, 40 / 2121], [40 / 2121, 0], [0, 2060 / 2121]]"

definition targetC_two_node :: "complex list" where
  "targetC_two_node = [0, 0, 0, 0, 2060 / 2121, 40 / 2121, 40 / 2121, 2060 / 2121]"

section \<open>Floating-point numbers\<close>









section \<open>Inversion in float64\<close>




















section \<open>A stiff two-node tree\<close>














section \<open>Array lemmas\<close>

lemma bindE_Inr [simp]: "bindE (Inr x) f = f x"
  by (simp add: bindE_def)

lemma bindE_Inl [simp]: "bindE (Inl e) f = Inl e"
  by (simp add: bindE_def)

lemma bindE_eq_Inr: "bindE r f = Inr y \<longleftrightarrow> (\<exists>x. r = Inr x \<and> f x = Inr y)"
  by (cases r) simp_all

lemma np_index_Inr: "np_index n i = Inr r \<Longrightarrow> r < n"
  by (auto simp: np_index_def split: if_splits)

lemma np_index_nonneg: "0 \<le> i \<Longrightarrow> i < int n \<Longrightarrow> np_index n i = Inr (nat i)"
  by (simp add: np_index_def)

lemma is_mat_zeros: "is_mat n m (zeros n m)"
  by (simp add: is_mat_def zeros_def list_all_iff)

lemma is_mat_row: "is_mat n m a \<Longrightarrow> r < n \<Longrightarrow> length (a ! r) = m"
  by (auto simp: is_mat_def list_all_length)

lemma is_mat_update:
  "is_mat n m a \<Longrightarrow> r < n \<Longrightarrow> is_mat n m (a[r := (a ! r)[c := v]])"
  by (auto simp: is_mat_def list_all_length nth_list_update)

lemma nth_update2:
  "r < length a \<Longrightarrow> c < length (a ! r) \<Longrightarrow>
   a[r := (a ! r)[c := v]] ! r' ! c' = (if r' = r \<and> c' = c then v else a ! r' ! c')"
  by (cases "r' = r") (auto simp: nth_list_update)

lemma zeros_nth: "r < n \<Longrightarrow> c < m \<Longrightarrow> zeros n m ! r ! c = 0"
  by (simp add: zeros_def)

text \<open>What a successful in-place update did, in terms of the positions numpy resolved.\<close>

lemma iadd2_Inr:
  assumes "iadd2 a i j v = Inr a'" and "is_mat n m a"
  shows "\<exists>r c. np_index n i = Inr r \<and> np_index m j = Inr c \<and> is_mat n m a' \<and>
           (\<forall>r' c'. a' ! r' ! c' = (if r' = r \<and> c' = c then a ! r ! c + v else a ! r' ! c'))"
proof -
  from assms(1) obtain r c where r: "np_index (length a) i = Inr r"
    and c: "np_index (length (a ! r)) j = Inr c"
    and a': "a' = a[r := (a ! r)[c := a ! r ! c + v]]"
    by (auto simp: iadd2_def bindE_eq_Inr)
  have rn: "r < n" using r assms(2) by (auto simp: is_mat_def dest: np_index_Inr)
  have len: "length a = n" "length (a ! r) = m"
    using assms(2) rn by (auto simp: is_mat_def list_all_length)
  have cm: "c < m" using c len by (auto dest: np_index_Inr)
  show ?thesis
    using r c a' rn cm len is_mat_update[OF assms(2) rn] by (auto simp: nth_update2)
qed

lemma isub2_Inr:
  assumes "isub2 a i j v = Inr a'" and "is_mat n m a"
  shows "\<exists>r c. np_index n i = Inr r \<and> np_index m j = Inr c \<and> is_mat n m a' \<and>
           (\<forall>r' c'. a' ! r' ! c' = (if r' = r \<and> c' = c then a ! r ! c - v else a ! r' ! c'))"
proof -
  from assms(1) obtain r c where r: "np_index (length a) i = Inr r"
    and c: "np_index (length (a ! r)) j = Inr c"
    and a': "a' = a[r := (a ! r)[c := a ! r ! c - v]]"
    by (auto simp: isub2_def bindE_eq_Inr)
  have rn: "r < n" using r assms(2) by (auto simp: is_mat_def dest: np_index_Inr)
  have len: "length a = n" "length (a ! r) = m"
    using assms(2) rn by (auto simp: is_mat_def list_all_length)
  have cm: "c < m" using c len by (auto dest: np_index_Inr)
  show ?thesis
    using r c a' rn cm len is_mat_update[OF assms(2) rn] by (auto simp: nth_update2)
qed

lemma iadd2_ok:
  assumes "is_mat n m a" and "0 \<le> i" "i < int n" "0 \<le> j" "j < int m"
  shows "iadd2 a i j v = Inr (a[nat i := (a ! nat i)[nat j := a ! nat i ! nat j + v]])"
  using assms by (simp add: iadd2_def is_mat_def np_index_nonneg list_all_length)

lemma isub2_ok:
  assumes "is_mat n m a" and "0 \<le> i" "i < int n" "0 \<le> j" "j < int m"
  shows "isub2 a i j v = Inr (a[nat i := (a ! nat i)[nat j := a ! nat i ! nat j - v]])"
  using assms by (simp add: isub2_def is_mat_def np_index_nonneg list_all_length)

text \<open>The same, for indices in \<open>0 .. n-1\<close>: the update succeeds and adds to one entry.\<close>

lemma iadd2_entry:
  fixes a :: "'a::ab_group_add list list"
  assumes "is_mat n m a" and "0 \<le> i" "i < int n" "0 \<le> j" "j < int m"
  shows "\<exists>a'. iadd2 a i j v = Inr a' \<and> is_mat n m a' \<and>
           (\<forall>r c. a' ! r ! c = a ! r ! c + (if int r = i \<and> int c = j then v else 0))"
proof -
  have r: "nat i < length a" "nat j < length (a ! nat i)"
    using assms by (auto simp: is_mat_def list_all_length)
  have "is_mat n m (a[nat i := (a ! nat i)[nat j := a ! nat i ! nat j + v]])"
    using assms by (intro is_mat_update) auto
  moreover have "a[nat i := (a ! nat i)[nat j := a ! nat i ! nat j + v]] ! r ! c
       = a ! r ! c + (if int r = i \<and> int c = j then v else 0)" for r c
    using assms(2,4) by (subst nth_update2[OF r]) auto
  ultimately show ?thesis using iadd2_ok[OF assms] by simp
qed

lemma isub2_entry:
  fixes a :: "'a::ab_group_add list list"
  assumes "is_mat n m a" and "0 \<le> i" "i < int n" "0 \<le> j" "j < int m"
  shows "\<exists>a'. isub2 a i j v = Inr a' \<and> is_mat n m a' \<and>
           (\<forall>r c. a' ! r ! c = a ! r ! c - (if int r = i \<and> int c = j then v else 0))"
proof -
  have r: "nat i < length a" "nat j < length (a ! nat i)"
    using assms by (auto simp: is_mat_def list_all_length)
  have "is_mat n m (a[nat i := (a ! nat i)[nat j := a ! nat i ! nat j - v]])"
    using assms by (intro is_mat_update) auto
  moreover have "a[nat i := (a ! nat i)[nat j := a ! nat i ! nat j - v]] ! r ! c
       = a ! r ! c - (if int r = i \<and> int c = j then v else 0)" for r c
    using assms(2,4) by (subst nth_update2[OF r]) auto
  ultimately show ?thesis using isub2_ok[OF assms] by simp
qed

lemma mat_eqI:
  assumes "is_mat n m a" "is_mat n m b" "\<And>r c. r < n \<Longrightarrow> c < m \<Longrightarrow> a ! r ! c = b ! r ! c"
  shows "a = b"
proof (rule nth_equalityI)
  show "length a = length b" using assms by (simp add: is_mat_def)
  fix r assume r: "r < length a"
  then have rn: "r < n" using assms(1) by (simp add: is_mat_def)
  show "a ! r = b ! r"
    using assms rn by (intro nth_equalityI) (auto simp: is_mat_def list_all_length)
qed

section \<open>The conductance matrix meets its contract\<close>

text \<open>One pass of the loop body adds exactly what the contract says the node adds.\<close>

lemma cond_body_ok:
  assumes m: "is_mat n n g"
    and i: "0 \<le> index nd" "index nd < int n"
    and p: "case parent_node nd of None \<Rightarrow> True | Some j \<Rightarrow> 0 \<le> j \<and> j < int n"
  shows "\<exists>g'. cond_body g nd = Inr g' \<and> is_mat n n g' \<and>
           (\<forall>r c. g' ! r ! c = g ! r ! c + node_adds nd (int r) (int c))"
proof -
  obtain g1 where 1: "iadd2 g (index nd) (index nd) (g_l nd + g_c nd) = Inr g1"
    and m1: "is_mat n n g1"
    and e1: "\<And>r c. g1 ! r ! c = g ! r ! c +
               (if int r = index nd \<and> int c = index nd then g_l nd + g_c nd else 0)"
    using iadd2_entry[OF m i i] by blast
  show ?thesis
  proof (cases "parent_node nd")
    case None
    then show ?thesis using 1 m1 e1 by (simp add: cond_body_def node_adds_def)
  next
    case (Some jj)
    then have j: "0 \<le> jj" "jj < int n" using p by auto
    obtain g2 where 2: "iadd2 g1 jj jj (g_c nd) = Inr g2" and m2: "is_mat n n g2"
      and e2: "\<And>r c. g2 ! r ! c = g1 ! r ! c + (if int r = jj \<and> int c = jj then g_c nd else 0)"
      using iadd2_entry[OF m1 j j] by blast
    obtain g3 where 3: "isub2 g2 (index nd) jj (g_c nd) = Inr g3" and m3: "is_mat n n g3"
      and e3: "\<And>r c. g3 ! r ! c =
                 g2 ! r ! c - (if int r = index nd \<and> int c = jj then g_c nd else 0)"
      using isub2_entry[OF m2 i j] by blast
    obtain g4 where 4: "isub2 g3 jj (index nd) (g_c nd) = Inr g4" and m4: "is_mat n n g4"
      and e4: "\<And>r c. g4 ! r ! c =
                 g3 ! r ! c - (if int r = jj \<and> int c = index nd then g_c nd else 0)"
      using isub2_entry[OF m3 j i] by blast
    have "cond_body g nd = Inr g4"
      using Some 1 2 3 4 by (simp add: cond_body_def)
    moreover have "g4 ! r ! c = g ! r ! c + node_adds nd (int r) (int c)" for r c
      unfolding e4 e3 e2 e1 node_adds_def Some by simp
    ultimately show ?thesis using m4 by blast
  qed
qed

lemma cond_loop_ok:
  assumes "is_mat n n g"
    and "list_all (\<lambda>nd. 0 \<le> index nd \<and> index nd < int n \<and>
                 (case parent_node nd of None \<Rightarrow> True | Some j \<Rightarrow> 0 \<le> j \<and> j < int n)) nds"
  shows "\<exists>g'. foldE cond_body nds g = Inr g' \<and> is_mat n n g' \<and>
           (\<forall>r c. g' ! r ! c =
              g ! r ! c + sum_list (map (\<lambda>nd. node_adds nd (int r) (int c)) nds))"
  using assms
proof (induction nds arbitrary: g)
  case Nil
  then show ?case by simp
next
  case (Cons nd nds)
  from Cons.prems obtain g1 where 1: "cond_body g nd = Inr g1" and m1: "is_mat n n g1"
    and e1: "\<And>r c. g1 ! r ! c = g ! r ! c + node_adds nd (int r) (int c)"
    using cond_body_ok[of n g nd] by auto
  from Cons.IH[OF m1] Cons.prems(2) obtain g' where 2: "foldE cond_body nds g1 = Inr g'"
    and m': "is_mat n n g'"
    and e': "\<And>r c. g' ! r ! c =
               g1 ! r ! c + sum_list (map (\<lambda>nd. node_adds nd (int r) (int c)) nds)"
    by auto
  show ?case using 1 2 m' by (simp add: e' e1 add.assoc)
qed

lemma is_mat_conductance_spec: "is_mat (length t) (length t) (conductance_spec t)"
  by (simp add: is_mat_def conductance_spec_def list_all_iff)

lemma conductance_spec_nth:
  "r < length t \<Longrightarrow> c < length t \<Longrightarrow>
   conductance_spec t ! r ! c = sum_list (map (\<lambda>nd. node_adds nd (int r) (int c)) t)"
  by (simp add: conductance_spec_def)

lemma calcConductanceMatrix_eq_spec:
  assumes "indices_ok self"
  shows "calcConductanceMatrix self = Inr (conductance_spec self)"
proof -
  let ?n = "length self"
  obtain g where g: "foldE cond_body self (zeros ?n ?n) = Inr g" and m: "is_mat ?n ?n g"
    and e: "\<And>r c. g ! r ! c = zeros ?n ?n ! r ! c +
              sum_list (map (\<lambda>nd. node_adds nd (int r) (int c)) self)"
    using cond_loop_ok[OF is_mat_zeros, of ?n self] assms unfolding indices_ok_def by blast
  have "g = conductance_spec self"
    by (rule mat_eqI[OF m is_mat_conductance_spec]) (simp add: e zeros_nth conductance_spec_def)
  then show ?thesis using g by (simp add: calcConductanceMatrix_def)
qed

lemma indices_ok_two_node: "indices_ok two_node"
  by (simp add: indices_ok_def two_node_def)

lemma conductance_spec_two_node:
  "conductance_spec two_node = [[3 / 100, - (2 / 100)], [- (2 / 100), 3 / 100]]"
  by (simp add: conductance_spec_def two_node_def node_adds_def upt_rec)

text \<open>
  Claim C2. For a tree of \<open>n\<close> nodes whose indices and parent indices are matrix
  coordinates \<open>0 .. n-1\<close>, \<open>calcConductanceMatrix\<close> returns the \<open>n \<times> n\<close> real matrix
  whose entry \<open>(r, c)\<close> is the sum, over the nodes, of what the contract lets a node add
  there: \<open>g_l + g_c\<close> at \<open>(i, i)\<close>, and for a node with parent \<open>j\<close> also \<open>g_c\<close> at
  \<open>(j, j)\<close> and \<open>- g_c\<close> at \<open>(i, j)\<close> and \<open>(j, i)\<close>; nothing else is added anywhere. The
  function takes the tree as a value and returns only the matrix: the source assigns no
  node field, so there is no node state for it to change.
\<close>

theorem calcConductanceMatrix_contract:
  assumes "indices_ok self"
  shows "calcConductanceMatrix self = Inr (conductance_spec self) \<and>
         is_mat (length self) (length self) (conductance_spec self)"
  using calcConductanceMatrix_eq_spec[OF assms] is_mat_conductance_spec by simp

theorem calcConductanceMatrix_contract_witness:
  "indices_ok two_node \<and>
   calcConductanceMatrix two_node = Inr [[3 / 100, - (2 / 100)], [- (2 / 100), 3 / 100]]"
  using calcConductanceMatrix_contract[OF indices_ok_two_node] indices_ok_two_node
  by (simp add: conductance_spec_two_node)

section \<open>The system matrix meets its contract\<close>

lemma is_stackD: "is_stack m n1 n2 a \<Longrightarrow> f < m \<Longrightarrow> is_mat n1 n2 (a ! f)"
  by (simp add: is_stack_def list_all_length)

lemma stack_eqI:
  assumes "is_stack m n1 n2 a" "is_stack m n1 n2 b"
    "\<And>f r c. f < m \<Longrightarrow> r < n1 \<Longrightarrow> c < n2 \<Longrightarrow> a ! f ! r ! c = b ! f ! r ! c"
  shows "a = b"
proof (rule nth_equalityI)
  show "length a = length b" using assms by (simp add: is_stack_def)
  fix f assume "f < length a"
  then have f: "f < m" using assms(1) by (simp add: is_stack_def)
  show "a ! f = b ! f"
    by (rule mat_eqI[OF is_stackD[OF assms(1) f] is_stackD[OF assms(2) f]]) (rule assms(3)[OF f])
qed

lemma iadd_stack2_entry:
  fixes a :: "'a::ab_group_add list list list"
  assumes "is_stack m n1 n2 a" and "length vs = m"
    and "0 \<le> i" "i < int n1" "0 \<le> j" "j < int n2"
  shows "\<exists>a'. iadd_stack2 n1 n2 a i j vs = Inr a' \<and> is_stack m n1 n2 a' \<and>
           (\<forall>f<m. \<forall>r c. a' ! f ! r ! c =
              a ! f ! r ! c + (if int r = i \<and> int c = j then vs ! f else 0))"
proof -
  let ?a' = "map2 (\<lambda>m v. m[nat i := (m ! nat i)[nat j := m ! nat i ! nat j + v]]) a vs"
  have run: "iadd_stack2 n1 n2 a i j vs = Inr ?a'"
    using assms(3-6) by (simp add: iadd_stack2_def np_index_nonneg)
  have len: "length a = m" using assms(1) by (simp add: is_stack_def)
  have sl: "?a' ! f = (a ! f)[nat i := (a ! f ! nat i)[nat j := a ! f ! nat i ! nat j + vs ! f]]"
    if "f < m" for f using that len assms(2) by simp
  have st: "is_stack m n1 n2 ?a'"
    unfolding is_stack_def list_all_length
  proof (intro conjI allI impI)
    show "length ?a' = m" using len assms(2) by simp
    fix f assume "f < length ?a'"
    then have f: "f < m" using len assms(2) by simp
    show "is_mat n1 n2 (?a' ! f)"
      unfolding sl[OF f] using is_stackD[OF assms(1) f] assms(3,4) by (intro is_mat_update) auto
  qed
  have en: "?a' ! f ! r ! c = a ! f ! r ! c + (if int r = i \<and> int c = j then vs ! f else 0)"
    if f: "f < m" for f r c
  proof -
    have ma: "is_mat n1 n2 (a ! f)" by (rule is_stackD[OF assms(1) f])
    have r: "nat i < length (a ! f)" "nat j < length (a ! f ! nat i)"
      using ma assms(3-6) by (auto simp: is_mat_def list_all_length)
    show ?thesis unfolding sl[OF f] using assms(3,5) by (subst nth_update2[OF r]) auto
  qed
  show ?thesis
  proof (intro exI conjI allI impI)
    show "iadd_stack2 n1 n2 a i j vs = Inr ?a'" by (rule run)
    show "is_stack m n1 n2 ?a'" by (rule st)
    fix f r c assume "f < m"
    then show "?a' ! f ! r ! c = a ! f ! r ! c + (if int r = i \<and> int c = j then vs ! f else 0)"
      by (rule en)
  qed
qed

lemma sys_loop_ok:
  assumes "is_stack m n n a" and "length fs = m"
    and "list_all (\<lambda>nd. 0 \<le> index nd \<and> index nd < int n) nds"
  shows "\<exists>a'. foldE (sys_body n fs) nds a = Inr a' \<and> is_stack m n n a' \<and>
           (\<forall>f<m. \<forall>r c. a' ! f ! r ! c =
              a ! f ! r ! c + sum_list (map (\<lambda>nd. cap_adds nd (fs ! f) (int r) (int c)) nds))"
  using assms
proof (induction nds arbitrary: a)
  case Nil
  then show ?case by simp
next
  case (Cons nd nds)
  have i: "0 \<le> index nd" "index nd < int n" using Cons.prems(3) by auto
  have lv: "length (map (\<lambda>f. f * complex_of_real (ca nd)) fs) = m" using Cons.prems(2) by simp
  from iadd_stack2_entry[OF Cons.prems(1) lv i i]
  obtain a1 where 1: "sys_body n fs a nd = Inr a1" and s1: "is_stack m n n a1"
    and e0: "\<And>f r c. f < m \<Longrightarrow> a1 ! f ! r ! c = a ! f ! r ! c +
               (if int r = index nd \<and> int c = index nd
                then map (\<lambda>f. f * complex_of_real (ca nd)) fs ! f else 0)"
    unfolding sys_body_def by blast
  have e1: "a1 ! f ! r ! c = a ! f ! r ! c + cap_adds nd (fs ! f) (int r) (int c)"
    if "f < m" for f r c
    using that Cons.prems(2) by (simp add: e0 cap_adds_def)
  have la: "list_all (\<lambda>nd. 0 \<le> index nd \<and> index nd < int n) nds"
    using Cons.prems(3) by simp
  from Cons.IH[OF s1 Cons.prems(2) la] obtain a' where
    2: "foldE (sys_body n fs) nds a1 = Inr a'" and s': "is_stack m n n a'"
    and e0': "\<forall>f<m. \<forall>r c. a' ! f ! r ! c =
               a1 ! f ! r ! c + sum_list (map (\<lambda>nd. cap_adds nd (fs ! f) (int r) (int c)) nds)"
    by blast
  have e': "a' ! f ! r ! c =
               a1 ! f ! r ! c + sum_list (map (\<lambda>nd. cap_adds nd (fs ! f) (int r) (int c)) nds)"
    if "f < m" for f r c using e0' that by simp
  show ?case using 1 2 s' by (simp add: e' e1 add.assoc)
qed

lemma is_stack_broadcast:
  "is_mat n n g \<Longrightarrow> is_stack m n n (broadcast_complex m g)"
  by (simp add: is_stack_def broadcast_complex_def is_mat_def list_all_iff)

lemma broadcast_nth:
  "is_mat n n g \<Longrightarrow> f < m \<Longrightarrow> r < n \<Longrightarrow> c < n \<Longrightarrow>
   broadcast_complex m g ! f ! r ! c = complex_of_real (g ! r ! c)"
  by (simp add: broadcast_complex_def is_mat_def list_all_length)

lemma is_stack_system_of: "is_stack (length fs) (length t) (length t) (system_of g fs t)"
  by (simp add: is_stack_def system_of_def is_mat_def list_all_iff)

lemma indices_ok_index:
  "indices_ok self \<Longrightarrow> list_all (\<lambda>nd. 0 \<le> index nd \<and> index nd < int (length self)) self"
  by (simp add: indices_ok_def list_all_iff)

lemma calcSystemMatrix_Some:
  assumes "indices_ok self"
  shows "calcSystemMatrix (Some fs) self =
           Inr (Stack (system_of (conductance_spec self) fs self))"
proof -
  let ?n = "length self" and ?m = "length fs" and ?g = "conductance_spec self"
  have g: "calcConductanceMatrix self = Inr ?g" by (rule calcConductanceMatrix_eq_spec[OF assms])
  have mg: "is_mat ?n ?n ?g" by (rule is_mat_conductance_spec)
  obtain a where a: "foldE (sys_body ?n fs) self (broadcast_complex ?m ?g) = Inr a"
    and s: "is_stack ?m ?n ?n a"
    and e0: "\<forall>f<?m. \<forall>r c. a ! f ! r ! c = broadcast_complex ?m ?g ! f ! r ! c +
              sum_list (map (\<lambda>nd. cap_adds nd (fs ! f) (int r) (int c)) self)"
    using sys_loop_ok[where fs = fs, OF is_stack_broadcast[OF mg] refl indices_ok_index[OF assms]]
    by blast
  have e: "a ! f ! r ! c = broadcast_complex ?m ?g ! f ! r ! c +
              sum_list (map (\<lambda>nd. cap_adds nd (fs ! f) (int r) (int c)) self)"
    if "f < ?m" for f r c using e0 that by simp
  have "a = system_of ?g fs self"
  proof (rule stack_eqI[OF s is_stack_system_of])
    fix f r c assume "f < ?m" "r < ?n" "c < ?n"
    then show "a ! f ! r ! c = system_of ?g fs self ! f ! r ! c"
      by (simp add: e broadcast_nth[OF mg] system_of_def)
  qed
  then show ?thesis using g a by (simp add: calcSystemMatrix_def)
qed

lemma system_of_offdiag:
  assumes "f < length fs" "r < length self" "c < length self" "r \<noteq> c"
  shows "system_of g fs self ! f ! r ! c = complex_of_real (g ! r ! c)"
proof -
  have "cap_adds nd (fs ! f) (int r) (int c) = 0" for nd
    using assms(4) by (auto simp: cap_adds_def)
  then have "sum_list (map (\<lambda>nd. cap_adds nd (fs ! f) (int r) (int c)) self) = 0"
    by simp
  then show ?thesis using assms by (simp add: system_of_def)
qed

lemma system_of_two_node:
  "system_of [[3 / 100, - (2 / 100)], [- (2 / 100), 3 / 100]] [0, \<i>] two_node =
     [[[3 / 100, - (2 / 100)], [- (2 / 100), 3 / 100]],
      [[3 / 100 + \<i>, - (2 / 100)], [- (2 / 100), 3 / 100 + \<i>]]]"
  by (simp add: system_of_def cap_adds_def two_node_def upt_rec)

text \<open>
  Claim C5. For a tree whose indices are matrix coordinates, \<open>calcSystemMatrix\<close> with
  \<open>freqs\<close> omitted returns exactly the real conductance matrix; with a frequency array of
  length \<open>m\<close> it returns a complex array of shape \<open>(m, n, n)\<close> (the constructor
  \<open>Stack\<close> holds complex entries whatever the frequencies are) whose slice \<open>f\<close> is
  the conductance matrix plus \<open>freqs[f] * ca(i)\<close> at \<open>(i, i)\<close> for every node
  \<open>i\<close>, and equals the conductance matrix at every off-diagonal entry.
\<close>

theorem calcSystemMatrix_contract:
  assumes "indices_ok self"
  shows "calcConductanceMatrix self = Inr (conductance_spec self) \<and>
         calcSystemMatrix None self = Inr (Steady (conductance_spec self)) \<and>
         calcSystemMatrix (Some freqs) self =
           Inr (Stack (system_of (conductance_spec self) freqs self)) \<and>
         is_stack (length freqs) (length self) (length self)
           (system_of (conductance_spec self) freqs self) \<and>
         (\<forall>f<length freqs. \<forall>r<length self. \<forall>c<length self. r \<noteq> c \<longrightarrow>
            system_of (conductance_spec self) freqs self ! f ! r ! c =
              complex_of_real (conductance_spec self ! r ! c))"
  using calcConductanceMatrix_eq_spec[OF assms] calcSystemMatrix_Some[OF assms]
    is_stack_system_of system_of_offdiag
  by (simp add: calcSystemMatrix_def)

theorem calcSystemMatrix_contract_witness:
  "indices_ok two_node \<and>
   calcSystemMatrix None two_node =
     Inr (Steady [[3 / 100, - (2 / 100)], [- (2 / 100), 3 / 100]]) \<and>
   calcSystemMatrix (Some [0, \<i>]) two_node =
     Inr (Stack [[[3 / 100, - (2 / 100)], [- (2 / 100), 3 / 100]],
                 [[3 / 100 + \<i>, - (2 / 100)], [- (2 / 100), 3 / 100 + \<i>]]])"
  using calcSystemMatrix_contract[OF indices_ok_two_node, of "[0, \<i>]"] indices_ok_two_node
  by (simp only: conductance_spec_two_node system_of_two_node simp_thms)

section \<open>Symmetry\<close>

lemma sym_mat_symmetric: "sym_mat n g \<Longrightarrow> symmetric g"
  by (simp add: sym_mat_def symmetric_def is_mat_def list_all_iff)

lemma np_index_fun: "np_index n i = Inr r \<Longrightarrow> np_index n i = Inr r' \<Longrightarrow> r = r'"
  by simp

lemma bindE_InrE:
  assumes "bindE r f = Inr y"
  obtains x where "r = Inr x" and "f x = Inr y"
  using assms by (cases r) simp_all

lemma cond_body_sym:
  assumes run: "cond_body g nd = Inr g'" and s: "sym_mat n g"
  shows "sym_mat n g'"
proof -
  have m: "is_mat n n g" and sy: "\<And>r c. r < n \<Longrightarrow> c < n \<Longrightarrow> g ! r ! c = g ! c ! r"
    using s by (auto simp: sym_mat_def)
  from run obtain g1 where 1: "iadd2 g (index nd) (index nd) (g_l nd + g_c nd) = Inr g1"
    and rest: "(case parent_node nd of None \<Rightarrow> Inr g1
       | Some jj \<Rightarrow> bindE (iadd2 g1 jj jj (g_c nd)) (\<lambda>g2.
          bindE (isub2 g2 (index nd) jj (g_c nd)) (\<lambda>g3. isub2 g3 jj (index nd) (g_c nd)))) = Inr g'"
    unfolding cond_body_def Let_def by (erule bindE_InrE)
  from iadd2_Inr[OF 1 m] obtain r where r: "np_index n (index nd) = Inr r"
    and m1: "is_mat n n g1"
    and e1: "\<And>a b. g1 ! a ! b = (if a = r \<and> b = r then g ! r ! r + (g_l nd + g_c nd) else g ! a ! b)"
    by auto
  have s1: "sym_mat n g1" unfolding sym_mat_def using m1 sy by (auto simp: e1)
  show ?thesis
  proof (cases "parent_node nd")
    case None
    then show ?thesis using rest s1 by simp
  next
    case (Some jj)
    from rest have rest': "bindE (iadd2 g1 jj jj (g_c nd)) (\<lambda>g2.
          bindE (isub2 g2 (index nd) jj (g_c nd)) (\<lambda>g3. isub2 g3 jj (index nd) (g_c nd))) = Inr g'"
      unfolding Some by simp
    from rest' obtain g2 where 2: "iadd2 g1 jj jj (g_c nd) = Inr g2"
      and rest2: "bindE (isub2 g2 (index nd) jj (g_c nd)) (\<lambda>g3. isub2 g3 jj (index nd) (g_c nd)) = Inr g'"
      by (erule bindE_InrE)
    from rest2 obtain g3 where 3: "isub2 g2 (index nd) jj (g_c nd) = Inr g3"
      and 4: "isub2 g3 jj (index nd) (g_c nd) = Inr g'"
      by (erule bindE_InrE)
    from iadd2_Inr[OF 2 m1] obtain c where c: "np_index n jj = Inr c"
      and m2: "is_mat n n g2"
      and e2: "\<And>a b. g2 ! a ! b = (if a = c \<and> b = c then g1 ! c ! c + g_c nd else g1 ! a ! b)"
      by auto
    from isub2_Inr[OF 3 m2] r c have m3: "is_mat n n g3"
      and e3: "\<And>a b. g3 ! a ! b = (if a = r \<and> b = c then g2 ! r ! c - g_c nd else g2 ! a ! b)"
      by auto
    from isub2_Inr[OF 4 m3] r c have m4: "is_mat n n g'"
      and e4: "\<And>a b. g' ! a ! b = (if a = c \<and> b = r then g3 ! c ! r - g_c nd else g3 ! a ! b)"
      by auto
    have rn: "r < n" "c < n" using r c by (auto dest: np_index_Inr)
    have rc: "g ! c ! r = g ! r ! c" by (rule sy[OF rn(2) rn(1)])
    have x1: "g' ! r ! c = g ! r ! c - g_c nd" if "r \<noteq> c"
      using that by (simp add: e4 e3 e2 e1)
    have x2: "g' ! c ! r = g ! c ! r - g_c nd" if "r \<noteq> c"
      using that by (simp add: e4 e3 e2 e1)
    have "g' ! a ! b = g' ! b ! a" if ab: "a < n" "b < n" for a b
    proof (cases "a = b")
      case True
      then show ?thesis by simp
    next
      case ne: False
      show ?thesis
      proof (cases "(a = r \<and> b = c) \<or> (a = c \<and> b = r)")
        case True
        then have "r \<noteq> c" using ne by auto
        from x1[OF this] x2[OF this] rc True show ?thesis by (elim disjE conjE) simp_all
      next
        case False
        have "g' ! a ! b = g ! a ! b" using False ne by (auto simp: e4 e3 e2 e1)
        moreover have "g' ! b ! a = g ! b ! a" using False ne by (auto simp: e4 e3 e2 e1)
        ultimately show ?thesis using sy[OF ab] by simp
      qed
    qed
    then show ?thesis using m4 by (simp add: sym_mat_def)
  qed
qed

lemma cond_loop_sym:
  "foldE cond_body nds g = Inr g' \<Longrightarrow> sym_mat n g \<Longrightarrow> sym_mat n g'"
proof (induction nds arbitrary: g)
  case Nil
  then show ?case by simp
next
  case (Cons nd nds)
  then show ?case by (auto simp: bindE_eq_Inr dest: cond_body_sym)
qed

lemma sym_mat_zeros: "sym_mat n (zeros n n)"
  by (simp add: sym_mat_def is_mat_zeros zeros_nth)

lemma calcConductanceMatrix_sym:
  "calcConductanceMatrix self = Inr g \<Longrightarrow> sym_mat (length self) g"
  unfolding calcConductanceMatrix_def by (rule cond_loop_sym[OF _ sym_mat_zeros])

lemma sym_mat_update_diag:
  assumes "sym_mat n g" "r < n"
  shows "sym_mat n (g[r := (g ! r)[r := v]])"
proof -
  have m: "is_mat n n g" using assms by (simp add: sym_mat_def)
  have l: "r < length g" "r < length (g ! r)" using m assms(2) by (auto simp: is_mat_def list_all_length)
  show ?thesis unfolding sym_mat_def
    using assms is_mat_update[OF m assms(2)] by (auto simp: nth_update2[OF l] sym_mat_def)
qed

lemma sys_body_sym:
  assumes "sys_body n fs a nd = Inr a'" and "list_all (sym_mat n) a"
  shows "list_all (sym_mat n) a'"
proof -
  from assms(1) obtain r where r: "np_index n (index nd) = Inr r"
    and a': "a' = map2 (\<lambda>m v. m[r := (m ! r)[r := m ! r ! r + v]]) a
                    (map (\<lambda>f. f * complex_of_real (ca nd)) fs)"
    by (auto simp: sys_body_def iadd_stack2_def bindE_eq_Inr)
  have rn: "r < n" using r by (rule np_index_Inr)
  show ?thesis unfolding a' list_all_length
    using assms(2) rn by (auto simp: list_all_length intro: sym_mat_update_diag)
qed

lemma sys_loop_sym:
  "foldE (sys_body n fs) nds a = Inr a' \<Longrightarrow> list_all (sym_mat n) a \<Longrightarrow> list_all (sym_mat n) a'"
proof (induction nds arbitrary: a)
  case Nil
  then show ?case by simp
next
  case (Cons nd nds)
  then show ?case by (auto simp: bindE_eq_Inr dest: sys_body_sym)
qed

lemma broadcast_sym: "sym_mat n g \<Longrightarrow> list_all (sym_mat n) (broadcast_complex m g)"
  by (auto simp: broadcast_complex_def sym_mat_def is_mat_def list_all_length)

lemma calcSystemMatrix_sym:
  assumes "calcSystemMatrix freqs self = Inr s"
  shows "symmetric_sys s"
proof (cases freqs)
  case None
  then show ?thesis using assms
    by (auto simp: calcSystemMatrix_def bindE_eq_Inr symmetric_sys_def
             dest!: calcConductanceMatrix_sym sym_mat_symmetric)
next
  case (Some fs)
  from assms Some obtain g a where g: "calcConductanceMatrix self = Inr g"
    and a: "foldE (sys_body (length self) fs) self (broadcast_complex (length fs) g) = Inr a"
    and s: "s = Stack a"
    by (auto simp: calcSystemMatrix_def bindE_eq_Inr)
  have "list_all (sym_mat (length self)) a"
    by (rule sys_loop_sym[OF a broadcast_sym[OF calcConductanceMatrix_sym[OF g]]])
  then show ?thesis unfolding s symmetric_sys_def
    by (auto simp: list_all_iff intro: sym_mat_symmetric)
qed

text \<open>
  Claim C6. Whatever the topology and whatever the values of \<open>ca\<close>, \<open>g_l\<close> and
  \<open>g_c\<close>, a matrix that \<open>calcConductanceMatrix\<close> returns is symmetric, and so is
  every matrix that \<open>calcSystemMatrix\<close> returns: the conductance matrix when \<open>freqs\<close>
  is omitted, every frequency slice otherwise. (The functions return whenever the indices
  are matrix coordinates, by the two contracts above; an index numpy rejects raises.)
\<close>

theorem symmetry_law:
  "(calcConductanceMatrix self = Inr g \<longrightarrow> symmetric g) \<and>
   (calcSystemMatrix freqs self = Inr s \<longrightarrow> symmetric_sys s)"
  using calcConductanceMatrix_sym sym_mat_symmetric calcSystemMatrix_sym by blast

theorem symmetry_law_witness:
  "calcConductanceMatrix two_node = Inr [[3 / 100, - (2 / 100)], [- (2 / 100), 3 / 100]] \<and>
   symmetric [[3 / 100, - (2 / 100)], [- (2 / 100), 3 / 100 :: real]] \<and>
   calcSystemMatrix (Some [0, \<i>]) two_node =
     Inr (Stack [[[3 / 100, - (2 / 100)], [- (2 / 100), 3 / 100]],
                 [[3 / 100 + \<i>, - (2 / 100)], [- (2 / 100), 3 / 100 + \<i>]]]) \<and>
   symmetric_sys (Stack [[[3 / 100, - (2 / 100)], [- (2 / 100), 3 / 100]],
                 [[3 / 100 + \<i>, - (2 / 100)], [- (2 / 100), 3 / 100 + \<i>]]])"
proof -
  let ?G = "[[3 / 100, - (2 / 100)], [- (2 / 100), 3 / 100 :: real]]"
  let ?S = "[[[3 / 100, - (2 / 100)], [- (2 / 100), 3 / 100]],
             [[3 / 100 + \<i>, - (2 / 100)], [- (2 / 100), 3 / 100 + \<i>]]]"
  have g: "calcConductanceMatrix two_node = Inr ?G"
    using calcConductanceMatrix_eq_spec[OF indices_ok_two_node]
    by (simp only: conductance_spec_two_node)
  have s: "calcSystemMatrix (Some [0, \<i>]) two_node = Inr (Stack ?S)"
    using calcSystemMatrix_Some[OF indices_ok_two_node, of "[0, \<i>]"]
    by (simp only: conductance_spec_two_node system_of_two_node)
  from symmetry_law[of two_node ?G "Some [0, \<i>]" "Stack ?S"] g s
  have "symmetric ?G" and "symmetric_sys (Stack ?S)" by blast+
  with g s show ?thesis by blast
qed

section \<open>The root's coupling conductance, and the combined fit\<close>

lemma calc_root_only: "calcConductanceMatrix root_only = Inr [[1 / 100]]"
  by (simp add: calcConductanceMatrix_def root_only_def cond_body_def iadd2_def np_index_def zeros_def)

lemma calc_root_coupled: "calcConductanceMatrix root_coupled = Inr [[51 / 100]]"
  by (simp add: calcConductanceMatrix_def root_coupled_def cond_body_def iadd2_def np_index_def zeros_def)

text \<open>
  Claim C9, at the input where the code departs from it. The two one-node trees differ
  only in the root's \<open>g_c\<close> (0 and 1/2), and \<open>calcConductanceMatrix\<close> returns
  \<open>[[0.01]]\<close> for one and \<open>[[0.51]]\<close> for the other: the loop adds
  \<open>node.g_l + node.g_c\<close> to the diagonal for every node, the root included, although the
  class documents \<open>g_c\<close> as to be ignored at the root and \<open>_toVecG\<close>,
  \<open>_toStructureTensorG\<close> and \<open>_toTreeG\<close> leave it out.
\<close>

theorem root_coupling_not_ignored:
  "map (\<lambda>nd. nd\<lparr>g_c := 0\<rparr>) root_coupled = root_only \<and>
   calcConductanceMatrix root_only = Inr [[1 / 100]] \<and>
   calcConductanceMatrix root_coupled = Inr [[51 / 100]] \<and>
   calcConductanceMatrix root_coupled \<noteq> calcConductanceMatrix root_only"
  by (simp add: calc_root_only calc_root_coupled) (simp add: root_only_def root_coupled_def)

text \<open>
  Claim C3, at the input where the code departs from it. For the single root node with
  \<open>g_c = 1/2\<close> the structure tensor is \<open>[[[1]]]\<close> and the parameter vector
  \<open>[g_l] = [0.01]\<close>, so the contraction is \<open>[[0.01]]\<close>, while
  \<open>calcConductanceMatrix\<close> returns \<open>[[0.51]]\<close>: it counts the root's coupling
  conductance, which the parameter vector and the tensor leave out.
\<close>

theorem structure_tensor_root_coupled:
  "toStructureTensorG root_coupled = Inr [[[1]]] \<and>
   toVecG root_coupled = [1 / 100] \<and>
   tensor_dot [[[1]]] (toVecG root_coupled) = [[1 / 100]] \<and>
   calcConductanceMatrix root_coupled = Inr [[51 / 100]]"
  by (simp add: calc_root_coupled)
     (simp add: toStructureTensorG_def structG_body_def iadd3_def np_index_def zeros3_def
        tensor_dot_def dot_def root_coupled_def)

text \<open>
  Claim C4, on the code as written. Every call of \<open>computeGC\<close> ends in a
  \<open>NameError\<close> with the tree untouched: the first statement reads \<open>kwargs\<close>, a name
  that is neither a parameter of the method nor bound by the module. Neither the
  \<open>ValueError\<close> the docstring promises nor the calls of \<open>computeG\<close> and
  \<open>computeC\<close> are ever reached.
\<close>

theorem computeGC_raises_NameError:
  "computeGC lstsq_r lstsq_c freqs zf_mat z_mat self = (self, Some NameError)"
  by (simp add: computeGC_def computeGC_scope_def name_lookup_def tryE_def)

section \<open>What the fitting routines leave unchanged\<close>

lemma enumerate_nodes_frame:
  assumes "\<And>ii nd. P (fst (body ii nd)) = P nd"
  shows "map P (fst (enumerate_nodes body ii nds)) = map P nds"
proof (induction nds arbitrary: ii)
  case Nil
  then show ?case by simp
next
  case (Cons nd nds)
  obtain nd' r where b: "body ii nd = (nd', r)" by (cases "body ii nd")
  have p: "P nd' = P nd" using assms[of ii nd] b by simp
  show ?case
  proof (cases r)
    case None
    obtain nds' r' where e: "enumerate_nodes body (ii + 1) nds = (nds', r')"
      by (cases "enumerate_nodes body (ii + 1) nds")
    have "map P nds' = map P nds" using Cons.IH[of "ii + 1"] e by simp
    then show ?thesis using b None e p by simp
  next
    case (Some e)
    then show ?thesis using b p by simp
  qed
qed

lemma toTreeG_body_frame:
  "index (fst (toTreeG_body g_vec ii nd)) = index nd"
  "parent_node (fst (toTreeG_body g_vec ii nd)) = parent_node nd"
  "ca (fst (toTreeG_body g_vec ii nd)) = ca nd"
  by (auto simp: toTreeG_body_def split: option.splits sum.splits)

lemma toTreeC_body_frame:
  "index (fst (toTreeC_body c_vec ii nd)) = index nd"
  "parent_node (fst (toTreeC_body c_vec ii nd)) = parent_node nd"
  "g_l (fst (toTreeC_body c_vec ii nd)) = g_l nd"
  "g_c (fst (toTreeC_body c_vec ii nd)) = g_c nd"
  by (auto simp: toTreeC_body_def split: sum.splits)

lemma tryE_frame:
  assumes "\<And>x. map P (fst (f x)) = map P self"
  shows "map P (fst (tryE r self f)) = map P self"
  using assms by (cases r) (simp_all add: tryE_def)

lemma computeG_frame:
  assumes "\<And>g_vec ii nd. P (fst (toTreeG_body g_vec ii nd)) = P nd"
  shows "map P (fst (computeG lstsq z_mat self)) = map P self"
proof -
  have w: "map P (fst (toTreeG g_vec self)) = map P self" for g_vec
    unfolding toTreeG_def by (rule enumerate_nodes_frame) (rule assms)
  show ?thesis
    unfolding computeG_def Let_def
    by (rule tryE_frame, rule tryE_frame, rule tryE_frame, rule w)
qed

lemma computeC_frame:
  assumes "\<And>c_vec ii nd. P (fst (toTreeC_body c_vec ii nd)) = P nd"
  shows "map P (fst (computeC lstsq freqs zf_mat self)) = map P self"
proof -
  have w: "map P (fst (toTreeC c_vec self)) = map P self" for c_vec
    unfolding toTreeC_def by (rule enumerate_nodes_frame) (rule assms)
  show ?thesis
    unfolding computeC_def Let_def
    by (rule tryE_frame, rule tryE_frame, rule tryE_frame, rule tryE_frame, rule tryE_frame,
        rule w)
qed

text \<open>
  Claim C10. Whatever the solver returns and whatever the arguments, and also when the call
  ends in an exception, the tree \<open>computeG\<close> leaves behind has the same number of
  nodes, the same indices, the same parent links and the same \<open>ca\<close> as before: only
  \<open>g_l\<close> and \<open>g_c\<close> can have changed. The tree \<open>computeC\<close> leaves behind has
  the same nodes, indices, parent links, \<open>g_l\<close> and \<open>g_c\<close>: only \<open>ca\<close> can have
  changed.
\<close>

theorem fitting_frame:
  "length (fst (computeG lstsq_r z_mat self)) = length self \<and>
   map index (fst (computeG lstsq_r z_mat self)) = map index self \<and>
   map parent_node (fst (computeG lstsq_r z_mat self)) = map parent_node self \<and>
   map ca (fst (computeG lstsq_r z_mat self)) = map ca self \<and>
   length (fst (computeC lstsq_c freqs zf_mat self)) = length self \<and>
   map index (fst (computeC lstsq_c freqs zf_mat self)) = map index self \<and>
   map parent_node (fst (computeC lstsq_c freqs zf_mat self)) = map parent_node self \<and>
   map g_l (fst (computeC lstsq_c freqs zf_mat self)) = map g_l self \<and>
   map g_c (fst (computeC lstsq_c freqs zf_mat self)) = map g_c self"
proof -
  have gi: "map index (fst (computeG lstsq_r z_mat self)) = map index self"
    by (rule computeG_frame) (rule toTreeG_body_frame)
  have ci: "map index (fst (computeC lstsq_c freqs zf_mat self)) = map index self"
    by (rule computeC_frame) (rule toTreeC_body_frame)
  have gl: "length (fst (computeG lstsq_r z_mat self)) = length self"
    using arg_cong[OF gi, of length] by simp
  have cl: "length (fst (computeC lstsq_c freqs zf_mat self)) = length self"
    using arg_cong[OF ci, of length] by simp
  show ?thesis
    using gi ci gl cl computeG_frame[of parent_node, OF toTreeG_body_frame(2)]
      computeG_frame[of ca, OF toTreeG_body_frame(3)]
      computeC_frame[of parent_node, OF toTreeC_body_frame(2)]
      computeC_frame[of g_l, OF toTreeC_body_frame(3)]
      computeC_frame[of g_c, OF toTreeC_body_frame(4)]
    by simp
qed

section \<open>The impedance matrix\<close>




lemma conductance_spec_two_node': "conductance_spec two_node = G_two_node"
  by (simp add: conductance_spec_two_node G_two_node_def)












lemma is_arr3D: "is_arr3 n1 n2 n3 a \<Longrightarrow> r < n1 \<Longrightarrow> is_mat n2 n3 (a ! r)"
  by (simp add: is_arr3_def list_all_length)

lemma is_arr3_zeros3: "is_arr3 n1 n2 n3 (zeros3 n1 n2 n3)"
  by (simp add: is_arr3_def zeros3_def is_mat_def list_all_iff)

lemma zeros3_nth: "r < n1 \<Longrightarrow> c < n2 \<Longrightarrow> k < n3 \<Longrightarrow> zeros3 n1 n2 n3 ! r ! c ! k = 0"
  by (simp add: zeros3_def)

lemma arr3_eqI:
  assumes "is_arr3 n1 n2 n3 a" "is_arr3 n1 n2 n3 b"
    "\<And>r c k. r < n1 \<Longrightarrow> c < n2 \<Longrightarrow> k < n3 \<Longrightarrow> a ! r ! c ! k = b ! r ! c ! k"
  shows "a = b"
proof (rule nth_equalityI)
  show "length a = length b" using assms by (simp add: is_arr3_def)
  fix r assume "r < length a"
  then have r: "r < n1" using assms(1) by (simp add: is_arr3_def)
  show "a ! r = b ! r"
    by (rule mat_eqI[OF is_arr3D[OF assms(1) r] is_arr3D[OF assms(2) r]]) (rule assms(3)[OF r])
qed

lemma nth_update3:
  assumes "r < length a" "c < length (a ! r)" "k < length (a ! r ! c)"
  shows "a[r := (a ! r)[c := (a ! r ! c)[k := v]]] ! r' ! c' ! k' =
           (if r' = r \<and> c' = c \<and> k' = k then v else a ! r' ! c' ! k')"
proof (cases "r' = r")
  case True
  then show ?thesis using assms by (cases "c' = c") (auto simp: nth_list_update)
next
  case False
  then show ?thesis by simp
qed

lemma is_arr3_update:
  assumes "is_arr3 n1 n2 n3 a" "r < n1" "c < n2"
  shows "is_arr3 n1 n2 n3 (a[r := (a ! r)[c := (a ! r ! c)[k := v]]])"
proof -
  have m: "is_mat n2 n3 (a ! r)" by (rule is_arr3D[OF assms(1,2)])
  have "is_mat n2 n3 ((a ! r)[c := (a ! r ! c)[k := v]])"
    using m assms(3) by (auto simp: is_mat_def list_all_length nth_list_update)
  then show ?thesis
    using assms(1,2) by (auto simp: is_arr3_def list_all_length nth_list_update)
qed

lemma iadd3_entry:
  fixes a :: "'a::ab_group_add list list list"
  assumes "is_arr3 n1 n2 n3 a"
    and "0 \<le> i" "i < int n1" "0 \<le> j" "j < int n2" "0 \<le> k" "k < int n3"
  shows "\<exists>a'. iadd3 a i j k v = Inr a' \<and> is_arr3 n1 n2 n3 a' \<and>
           (\<forall>r c d. a' ! r ! c ! d =
              a ! r ! c ! d + (if int r = i \<and> int c = j \<and> int d = k then v else 0))"
proof -
  let ?a' = "a[nat i := (a ! nat i)[nat j := (a ! nat i ! nat j)[nat k := a ! nat i ! nat j ! nat k + v]]]"
  have l1: "nat i < length a" using assms by (simp add: is_arr3_def)
  have m: "is_mat n2 n3 (a ! nat i)" using assms by (intro is_arr3D[OF assms(1)]) auto
  have l2: "nat j < length (a ! nat i)" using m assms by (simp add: is_mat_def)
  have l3: "nat k < length (a ! nat i ! nat j)"
    using m assms l2 by (auto simp: is_mat_def list_all_length)
  have len: "length a = n1" "length (a ! nat i) = n2" "length (a ! nat i ! nat j) = n3"
    using assms(1) m l2 by (auto simp: is_arr3_def is_mat_def list_all_length)
  have run: "iadd3 a i j k v = Inr ?a'"
    using assms(2-) len by (simp add: iadd3_def np_index_nonneg)
  have st: "is_arr3 n1 n2 n3 ?a'" using assms by (intro is_arr3_update) auto
  have en: "?a' ! r ! c ! d =
      a ! r ! c ! d + (if int r = i \<and> int c = j \<and> int d = k then v else 0)" for r c d
    using assms(2,4,6) by (subst nth_update3[OF l1 l2 l3]) auto
  show ?thesis
  proof (intro exI conjI allI)
    show "iadd3 a i j k v = Inr ?a'" by (rule run)
    show "is_arr3 n1 n2 n3 ?a'" by (rule st)
    show "?a' ! r ! c ! d =
      a ! r ! c ! d + (if int r = i \<and> int c = j \<and> int d = k then v else 0)" for r c d
      by (rule en)
  qed
qed

lemma isub3_entry:
  fixes a :: "'a::ab_group_add list list list"
  assumes "is_arr3 n1 n2 n3 a"
    and "0 \<le> i" "i < int n1" "0 \<le> j" "j < int n2" "0 \<le> k" "k < int n3"
  shows "\<exists>a'. isub3 a i j k v = Inr a' \<and> is_arr3 n1 n2 n3 a' \<and>
           (\<forall>r c d. a' ! r ! c ! d =
              a ! r ! c ! d - (if int r = i \<and> int c = j \<and> int d = k then v else 0))"
proof -
  let ?a' = "a[nat i := (a ! nat i)[nat j := (a ! nat i ! nat j)[nat k := a ! nat i ! nat j ! nat k - v]]]"
  have l1: "nat i < length a" using assms by (simp add: is_arr3_def)
  have m: "is_mat n2 n3 (a ! nat i)" using assms by (intro is_arr3D[OF assms(1)]) auto
  have l2: "nat j < length (a ! nat i)" using m assms by (simp add: is_mat_def)
  have l3: "nat k < length (a ! nat i ! nat j)"
    using m assms l2 by (auto simp: is_mat_def list_all_length)
  have len: "length a = n1" "length (a ! nat i) = n2" "length (a ! nat i ! nat j) = n3"
    using assms(1) m l2 by (auto simp: is_arr3_def is_mat_def list_all_length)
  have run: "isub3 a i j k v = Inr ?a'"
    using assms(2-) len by (simp add: isub3_def np_index_nonneg)
  have st: "is_arr3 n1 n2 n3 ?a'" using assms by (intro is_arr3_update) auto
  have en: "?a' ! r ! c ! d =
      a ! r ! c ! d - (if int r = i \<and> int c = j \<and> int d = k then v else 0)" for r c d
    using assms(2,4,6) by (subst nth_update3[OF l1 l2 l3]) auto
  show ?thesis
  proof (intro exI conjI allI)
    show "isub3 a i j k v = Inr ?a'" by (rule run)
    show "is_arr3 n1 n2 n3 ?a'" by (rule st)
    show "?a' ! r ! c ! d =
      a ! r ! c ! d - (if int r = i \<and> int c = j \<and> int d = k then v else 0)" for r c d
      by (rule en)
  qed
qed

lemma structG_body_ok:
  assumes m: "is_arr3 n n p s" and ok: "slots_ok n p nd"
  shows "\<exists>s'. structG_body s nd = Inr s' \<and> is_arr3 n n p s' \<and>
           (\<forall>r c k. s' ! r ! c ! k = s ! r ! c ! k + struct_adds nd (int r) (int c) (int k))"
proof (cases "parent_node nd")
  case None
  then have n: "(0::int) < int n" "(0::int) < int p" using ok by (auto simp: slots_ok_def)
  from iadd3_entry[OF m order_refl n(1) order_refl n(1) order_refl n(2), of 1]
  show ?thesis using None by (simp add: structG_body_def struct_adds_def)
next
  case (Some jj)
  let ?i = "index nd" and ?k = "2 * index nd - 1"
  have i: "0 \<le> ?i" "?i < int n" and j: "0 \<le> jj" "jj < int n"
    and k: "0 \<le> ?k" "?k < int p" and k1: "0 \<le> ?k + 1" "?k + 1 < int p"
    using ok Some by (auto simp: slots_ok_def)
  obtain s1 where 1: "isub3 s ?i jj ?k 1 = Inr s1" and m1: "is_arr3 n n p s1"
    and e1: "\<And>r c d. s1 ! r ! c ! d = s ! r ! c ! d -
               (if int r = ?i \<and> int c = jj \<and> int d = ?k then 1 else 0)"
    using isub3_entry[OF m i j k, of 1] by blast
  obtain s2 where 2: "isub3 s1 jj ?i ?k 1 = Inr s2" and m2: "is_arr3 n n p s2"
    and e2: "\<And>r c d. s2 ! r ! c ! d = s1 ! r ! c ! d -
               (if int r = jj \<and> int c = ?i \<and> int d = ?k then 1 else 0)"
    using isub3_entry[OF m1 j i k, of 1] by blast
  obtain s3 where 3: "iadd3 s2 jj jj ?k 1 = Inr s3" and m3: "is_arr3 n n p s3"
    and e3: "\<And>r c d. s3 ! r ! c ! d = s2 ! r ! c ! d +
               (if int r = jj \<and> int c = jj \<and> int d = ?k then 1 else 0)"
    using iadd3_entry[OF m2 j j k, of 1] by blast
  obtain s4 where 4: "iadd3 s3 ?i ?i ?k 1 = Inr s4" and m4: "is_arr3 n n p s4"
    and e4: "\<And>r c d. s4 ! r ! c ! d = s3 ! r ! c ! d +
               (if int r = ?i \<and> int c = ?i \<and> int d = ?k then 1 else 0)"
    using iadd3_entry[OF m3 i i k, of 1] by blast
  obtain s5 where 5: "iadd3 s4 ?i ?i (?k + 1) 1 = Inr s5" and m5: "is_arr3 n n p s5"
    and e5: "\<And>r c d. s5 ! r ! c ! d = s4 ! r ! c ! d +
               (if int r = ?i \<and> int c = ?i \<and> int d = ?k + 1 then 1 else 0)"
    using iadd3_entry[OF m4 i i k1, of 1] by blast
  have "structG_body s nd = Inr s5"
    using Some 1 2 3 4 5 by (simp add: structG_body_def Let_def)
  moreover have "s5 ! r ! c ! d = s ! r ! c ! d + struct_adds nd (int r) (int c) (int d)" for r c d
    unfolding e5 e4 e3 e2 e1 struct_adds_def Some by simp
  ultimately show ?thesis using m5 by blast
qed

lemma structG_loop_ok:
  assumes "is_arr3 n n p s" and "list_all (slots_ok n p) nds"
  shows "\<exists>s'. foldE structG_body nds s = Inr s' \<and> is_arr3 n n p s' \<and>
           (\<forall>r c k. s' ! r ! c ! k =
              s ! r ! c ! k + sum_list (map (\<lambda>nd. struct_adds nd (int r) (int c) (int k)) nds))"
  using assms
proof (induction nds arbitrary: s)
  case Nil
  then show ?case by simp
next
  case (Cons nd nds)
  have ok: "slots_ok n p nd" and oks: "list_all (slots_ok n p) nds" using Cons.prems(2) by simp_all
  from structG_body_ok[OF Cons.prems(1) ok]
  obtain s1 where 1: "structG_body s nd = Inr s1" and m1: "is_arr3 n n p s1"
    and e1: "\<And>r c k. s1 ! r ! c ! k = s ! r ! c ! k + struct_adds nd (int r) (int c) (int k)"
    by blast
  from Cons.IH[OF m1 oks] obtain s' where 2: "foldE structG_body nds s1 = Inr s'"
    and m': "is_arr3 n n p s'"
    and e': "\<And>r c k. s' ! r ! c ! k =
               s1 ! r ! c ! k + sum_list (map (\<lambda>nd. struct_adds nd (int r) (int c) (int k)) nds)"
    by blast
  show ?case using 1 2 m' by (simp add: e' e1 add.assoc)
qed

lemma wf_treeD:
  assumes "wf_tree t" "q < length t"
  shows "index (t ! q) = int q"
    and "parent_node (t ! q) = None \<longleftrightarrow> q = 0"
    and "parent_node (t ! q) = Some j \<Longrightarrow> 0 < q \<and> 0 \<le> j \<and> j < int q"
proof -
  have "index (t ! q) = int q \<and>
        (case parent_node (t ! q) of None \<Rightarrow> q = 0 | Some j \<Rightarrow> 0 < q \<and> 0 \<le> j \<and> j < int q)"
    using assms by (auto simp: wf_tree_def list_all_length split: option.splits)
  then show "index (t ! q) = int q"
    and "parent_node (t ! q) = None \<longleftrightarrow> q = 0"
    and "parent_node (t ! q) = Some j \<Longrightarrow> 0 < q \<and> 0 \<le> j \<and> j < int q"
    by (auto split: option.splits)
qed

lemma wf_tree_indices_ok:
  assumes "wf_tree t"
  shows "indices_ok t"
  unfolding indices_ok_def list_all_length
proof (intro allI impI)
  fix q assume q: "q < length t"
  have i: "index (t ! q) = int q" by (rule wf_treeD(1)[OF assms q])
  have "0 \<le> j \<and> j < int (length t)" if "parent_node (t ! q) = Some j" for j
    using wf_treeD(3)[OF assms q that] q by simp
  then show "0 \<le> index (t ! q) \<and> index (t ! q) < int (length t) \<and>
        (case parent_node (t ! q) of None \<Rightarrow> True
         | Some j \<Rightarrow> 0 \<le> j \<and> j < int (length t))"
    using i q by (simp split: option.splits)
qed

lemma toVecG_pairs:
  "list_all (\<lambda>nd. parent_node nd \<noteq> None) nds \<Longrightarrow>
   toVecG nds = concat (map (\<lambda>nd. [g_c nd, g_l nd]) nds)"
  by (induction nds) (auto split: option.splits)

lemma pairs_nth:
  "q < length nds \<Longrightarrow>
   concat (map (\<lambda>nd. [f nd, g nd]) nds) ! (2 * q) = f (nds ! q) \<and>
   concat (map (\<lambda>nd. [f nd, g nd]) nds) ! (2 * q + 1) = g (nds ! q)"
proof (induction nds arbitrary: q)
  case Nil
  then show ?case by simp
next
  case (Cons nd nds)
  show ?case
  proof (cases q)
    case 0
    then show ?thesis by simp
  next
    case (Suc q')
    then show ?thesis using Cons.IH[of q'] Cons.prems by simp
  qed
qed

lemma pairs_length: "length (concat (map (\<lambda>nd. [f nd, g nd]) nds)) = 2 * length nds"
  by (induction nds) simp_all

lemma wf_tree_split:
  assumes "wf_tree t" "t \<noteq> []"
  shows "parent_node (hd t) = None" and "list_all (\<lambda>nd. parent_node nd \<noteq> None) (tl t)"
proof -
  have n: "0 < length t" using assms(2) by simp
  show "parent_node (hd t) = None"
    using wf_treeD(2)[OF assms(1) n] assms(2) by (simp add: hd_conv_nth)
  show "list_all (\<lambda>nd. parent_node nd \<noteq> None) (tl t)"
    unfolding list_all_length
  proof (intro allI impI)
    fix q assume "q < length (tl t)"
    then have q: "Suc q < length t" by simp
    have "parent_node (t ! Suc q) \<noteq> None" using wf_treeD(2)[OF assms(1) q] by simp
    then show "parent_node (tl t ! q) \<noteq> None" using q by (simp add: nth_tl)
  qed
qed

lemma toVecG_wf:
  assumes "wf_tree t" "t \<noteq> []"
  shows "toVecG t = g_l (hd t) # concat (map (\<lambda>nd. [g_c nd, g_l nd]) (tl t))"
proof -
  obtain r rest where t: "t = r # rest" using assms(2) by (cases t) auto
  show ?thesis
    using wf_tree_split[OF assms] toVecG_pairs[of rest] unfolding t by simp
qed

lemma length_toVecG_wf:
  assumes "wf_tree t" "t \<noteq> []"
  shows "length (toVecG t) = 2 * length t - 1"
proof -
  obtain r rest where t: "t = r # rest" using assms(2) by (cases t) auto
  show ?thesis unfolding toVecG_wf[OF assms] by (simp add: pairs_length t)
qed

lemma toVecG_nth_wf:
  assumes "wf_tree t" "q < length t"
  shows "q = 0 \<Longrightarrow> toVecG t ! 0 = g_l (t ! 0)"
    and "0 < q \<Longrightarrow> toVecG t ! (2 * q - 1) = g_c (t ! q)"
    and "0 < q \<Longrightarrow> toVecG t ! (2 * q) = g_l (t ! q)"
proof -
  have ne: "t \<noteq> []" using assms(2) by auto
  note v = toVecG_wf[OF assms(1) ne]
  show "q = 0 \<Longrightarrow> toVecG t ! 0 = g_l (t ! 0)" using ne by (simp add: v hd_conv_nth)
  {
    assume q: "0 < q"
    then obtain q' where q': "q = Suc q'" by (cases q) auto
    have l: "q' < length (tl t)" using assms(2) q' by simp
    have tq: "tl t ! q' = t ! q" using l q' by (simp add: nth_tl)
    have a: "2 * q - 1 = Suc (2 * q')" and b: "2 * q = Suc (2 * q' + 1)" using q' by simp_all
    show "toVecG t ! (2 * q - 1) = g_c (t ! q)"
      unfolding v a using pairs_nth[OF l, of g_c g_l] tq by simp
    show "toVecG t ! (2 * q) = g_l (t ! q)"
      unfolding v b using pairs_nth[OF l, of g_c g_l] tq by simp
  }
qed

lemma wf_tree_slots_ok:
  assumes "wf_tree t"
  shows "list_all (slots_ok (length t) (length (toVecG t))) t"
  unfolding list_all_length
proof (intro allI impI)
  fix q assume q: "q < length t"
  then have ne: "t \<noteq> []" by auto
  note l = length_toVecG_wf[OF assms ne]
  show "slots_ok (length t) (length (toVecG t)) (t ! q)"
  proof (cases "parent_node (t ! q)")
    case None
    then show ?thesis using q l ne by (simp add: slots_ok_def)
  next
    case (Some j)
    from wf_treeD(3)[OF assms q Some] wf_treeD(1)[OF assms q] q
    have "0 \<le> index (t ! q)" "index (t ! q) < int (length t)" "0 \<le> j" "j < int (length t)"
      "1 \<le> index (t ! q)" "2 * index (t ! q) < int (2 * length t - 1)"
      by simp_all
    then show ?thesis unfolding slots_ok_def Some l by simp
  qed
qed

lemma is_arr3_structG_spec:
  "is_arr3 (length t) (length t) (length (toVecG t)) (structG_spec t)"
  by (simp add: is_arr3_def structG_spec_def is_mat_def list_all_iff)

lemma structG_spec_nth:
  "r < length t \<Longrightarrow> c < length t \<Longrightarrow> k < length (toVecG t) \<Longrightarrow>
   structG_spec t ! r ! c ! k = sum_list (map (\<lambda>nd. struct_adds nd (int r) (int c) (int k)) t)"
  by (simp add: structG_spec_def)

lemma toStructureTensorG_eq_spec:
  assumes "wf_tree self"
  shows "toStructureTensorG self = Inr (structG_spec self)"
proof -
  let ?n = "length self" and ?p = "length (toVecG self)"
  from structG_loop_ok[OF is_arr3_zeros3 wf_tree_slots_ok[OF assms]]
  obtain s where s: "foldE structG_body self (zeros3 ?n ?n ?p) = Inr s"
    and m: "is_arr3 ?n ?n ?p s"
    and e0: "\<forall>r c k. s ! r ! c ! k = zeros3 ?n ?n ?p ! r ! c ! k +
              sum_list (map (\<lambda>nd. struct_adds nd (int r) (int c) (int k)) self)"
    by blast
  note e = e0[rule_format]
  have "s = structG_spec self"
    by (rule arr3_eqI[OF m is_arr3_structG_spec]) (simp add: e zeros3_nth structG_spec_nth)
  then show ?thesis using s by (simp add: toStructureTensorG_def)
qed

lemma sum_list_upt: "sum_list (map f [0..<n]) = (\<Sum>k<n. f k)"
  by (simp add: interv_sum_list_conv_sum_set_nat atLeast0LessThan)

lemma dot_map_upt:
  fixes x :: "'a::comm_semiring_0 list"
  assumes "length x = p"
  shows "dot (map f [0..<p]) x = (\<Sum>k<p. f k * x ! k)"
proof -
  have "map2 (\<lambda>a b. a * b) (map f [0..<p]) x = map (\<lambda>k. f k * x ! k) [0..<p]"
    using assms by (intro nth_equalityI) simp_all
  then show ?thesis by (simp add: dot_def sum_list_upt)
qed

lemma sum_sum_list:
  fixes a :: "'b \<Rightarrow> nat \<Rightarrow> 'a::comm_semiring_0"
  shows "(\<Sum>k<p. sum_list (map (\<lambda>nd. a nd k) t) * y k) =
         sum_list (map (\<lambda>nd. \<Sum>k<p. a nd k * y k) t)"
  by (induction t) (simp_all add: sum.distrib distrib_right)

lemma pick_slot:
  fixes y :: "nat \<Rightarrow> real"
  assumes "0 \<le> kk" "kk < int p"
  shows "(\<Sum>k<p. (if int k = kk then 1 else 0) * y k) = y (nat kk)"
proof -
  have "(\<Sum>k<p. (if int k = kk then 1 else 0) * y k) = (\<Sum>k<p. if k = nat kk then y k else 0)"
    using assms(1) by (intro sum.cong) auto
  also have "\<dots> = y (nat kk)"
  proof -
    have "nat kk < p" using assms by linarith
    then show ?thesis by (simp add: sum.delta)
  qed
  finally show ?thesis .
qed

lemma pick_none:
  fixes y :: "nat \<Rightarrow> real"
  shows "(\<Sum>k<p. (if False then 1 else 0) * y k) = 0"
  by simp

lemma struct_adds_dot:
  assumes ok: "slots_ok n p nd"
  shows "(\<Sum>k<p. struct_adds nd r c (int k) * x ! k) = param_adds x nd r c"
proof (cases "parent_node nd")
  case None
  then have p: "(0::int) \<le> 0" "(0::int) < int p" using ok by (simp_all add: slots_ok_def)
  show ?thesis
  proof (cases "r = 0 \<and> c = 0")
    case True
    then show ?thesis using pick_slot[OF p, of "\<lambda>k. x ! k"] None
      by (simp add: struct_adds_def param_adds_def)
  next
    case False
    then show ?thesis using None by (auto simp: struct_adds_def param_adds_def)
  qed
next
  case (Some j)
  let ?i = "index nd" and ?k = "2 * index nd - 1"
  have k: "0 \<le> ?k" "?k < int p" and k1: "0 \<le> 2 * ?i" "2 * ?i < int p"
    using ok Some by (auto simp: slots_ok_def)
  have split: "struct_adds nd r c (int k) * x ! k =
      (- (if r = ?i \<and> c = j then 1 else 0) - (if r = j \<and> c = ?i then 1 else 0)
       + (if r = j \<and> c = j then 1 else 0) + (if r = ?i \<and> c = ?i then 1 else 0))
        * ((if int k = ?k then 1 else 0) * x ! k)
      + (if r = ?i \<and> c = ?i then 1 else 0) * ((if int k = 2 * ?i then 1 else 0) * x ! k)" for k
    unfolding struct_adds_def Some by simp
  show ?thesis
    unfolding split sum.distrib sum_distrib_left[symmetric] pick_slot[OF k] pick_slot[OF k1]
      param_adds_def Some
    by simp
qed

lemma tensor_dot_structG_spec:
  assumes "list_all (slots_ok (length t) (length (toVecG t))) t"
    and "length x = length (toVecG t)" and "r < length t" "c < length t"
  shows "tensor_dot (structG_spec t) x ! r ! c =
           sum_list (map (\<lambda>nd. param_adds x nd (int r) (int c)) t)"
proof -
  let ?p = "length (toVecG t)"
  have "tensor_dot (structG_spec t) x ! r ! c =
      dot (map (\<lambda>k. sum_list (map (\<lambda>nd. struct_adds nd (int r) (int c) (int k)) t)) [0..<?p]) x"
    using assms(3,4) by (simp add: tensor_dot_def structG_spec_def)
  also have "\<dots> = (\<Sum>k<?p. sum_list (map (\<lambda>nd. struct_adds nd (int r) (int c) (int k)) t) * x ! k)"
    by (rule dot_map_upt[OF assms(2)])
  also have "\<dots> = sum_list (map (\<lambda>nd. \<Sum>k<?p. struct_adds nd (int r) (int c) (int k) * x ! k) t)"
    by (rule sum_sum_list)
  also have "\<dots> = sum_list (map (\<lambda>nd. param_adds x nd (int r) (int c)) t)"
    using assms(1) by (intro arg_cong[of _ _ sum_list] map_cong refl struct_adds_dot)
      (auto simp: list_all_iff)
  finally show ?thesis .
qed

lemma is_mat_tensor_dot:
  "is_arr3 n m p s \<Longrightarrow> is_mat n m (tensor_dot s x)"
  by (auto simp: is_arr3_def is_mat_def tensor_dot_def list_all_iff)

text \<open>For a tree in canonical order whose root has no coupling conductance, a node adds
  to the conductance matrix what its slots of the parameter vector add to the contraction.\<close>

lemma param_adds_toVecG:
  assumes wf: "wf_tree t" and q: "q < length t" and root: "g_c (t ! 0) = 0"
  shows "param_adds (toVecG t) (t ! q) r c = node_adds (t ! q) r c"
proof (cases "parent_node (t ! q)")
  case None
  then have q0: "q = 0" using wf_treeD(2)[OF wf q] by simp
  have i: "index (t ! 0) = 0" using wf_treeD(1)[OF wf q] q0 by simp
  show ?thesis using None toVecG_nth_wf(1)[OF wf q q0] root i unfolding q0
    by (simp add: param_adds_def node_adds_def)
next
  case (Some j)
  have qp: "0 < q" using wf_treeD(3)[OF wf q Some] by simp
  have i: "index (t ! q) = int q" by (rule wf_treeD(1)[OF wf q])
  have n1: "nat (2 * int q - 1) = 2 * q - 1" and n2: "nat (2 * int q) = 2 * q" using qp by auto
  show ?thesis
    unfolding param_adds_def node_adds_def Some i n1 n2
      toVecG_nth_wf(2)[OF wf q qp] toVecG_nth_wf(3)[OF wf q qp]
    by (simp add: algebra_simps)
qed

lemma tensor_dot_toVecG:
  assumes wf: "wf_tree t" and root: "t \<noteq> [] \<longrightarrow> g_c (t ! 0) = 0"
  shows "tensor_dot (structG_spec t) (toVecG t) = conductance_spec t"
proof (rule mat_eqI[OF is_mat_tensor_dot[OF is_arr3_structG_spec] is_mat_conductance_spec])
  fix r c assume r: "r < length t" and c: "c < length t"
  then have ne: "t \<noteq> []" by auto
  have "tensor_dot (structG_spec t) (toVecG t) ! r ! c =
        sum_list (map (\<lambda>nd. param_adds (toVecG t) nd (int r) (int c)) t)"
    by (rule tensor_dot_structG_spec[OF wf_tree_slots_ok[OF wf] refl r c])
  also have "\<dots> = sum_list (map (\<lambda>nd. node_adds nd (int r) (int c)) t)"
  proof (intro arg_cong[of _ _ sum_list] map_cong refl)
    fix nd assume "nd \<in> set t"
    then obtain q where q: "q < length t" "nd = t ! q" by (auto simp: in_set_conv_nth)
    show "param_adds (toVecG t) nd (int r) (int c) = node_adds nd (int r) (int c)"
      unfolding q(2) using param_adds_toVecG[OF wf q(1)] root ne by simp
  qed
  also have "\<dots> = conductance_spec t ! r ! c" using r c by (simp add: conductance_spec_nth)
  finally show "tensor_dot (structG_spec t) (toVecG t) ! r ! c = conductance_spec t ! r ! c" .
qed

text \<open>The reconstruction identity of the structure tensor, for a root without coupling
  conductance.\<close>

lemma reconstruction_identity:
  assumes "wf_tree self" and "self \<noteq> [] \<longrightarrow> g_c (self ! 0) = 0"
  shows "\<exists>s. toStructureTensorG self = Inr s \<and>
             calcConductanceMatrix self = Inr (tensor_dot s (toVecG self))"
  using toStructureTensorG_eq_spec[OF assms(1)] tensor_dot_toVecG[OF assms]
    calcConductanceMatrix_eq_spec[OF wf_tree_indices_ok[OF assms(1)]]
  by simp

section \<open>Writing back\<close>

lemma enumerate_nodes_ok:
  assumes "\<forall>q<length nds. snd (body (ii + int q) (nds ! q)) = None"
  shows "enumerate_nodes body ii nds =
           (map (\<lambda>q. fst (body (ii + int q) (nds ! q))) [0..<length nds], None)"
  using assms
proof (induction nds arbitrary: ii)
  case Nil
  then show ?case by simp
next
  case (Cons nd nds)
  have b: "snd (body ii nd) = None" using Cons.prems by (auto dest: spec[of _ 0])
  have r: "\<forall>q<length nds. snd (body (ii + 1 + int q) (nds ! q)) = None"
  proof (intro allI impI)
    fix q assume "q < length nds"
    then have "snd (body (ii + int (Suc q)) ((nd # nds) ! Suc q)) = None"
      using Cons.prems by (auto dest: spec[of _ "Suc q"])
    then show "snd (body (ii + 1 + int q) (nds ! q)) = None" by (simp add: add.assoc)
  qed
  have e: "enumerate_nodes body (ii + 1) nds =
      (map (\<lambda>q. fst (body (ii + 1 + int q) (nds ! q))) [0..<length nds], None)"
    by (rule Cons.IH[OF r])
  have m: "map (\<lambda>q. fst (body (ii + int q) ((nd # nds) ! q))) [0..<length (nd # nds)] =
      fst (body ii nd) # map (\<lambda>q. fst (body (ii + 1 + int q) (nds ! q))) [0..<length nds]"
    by (simp add: map_upt_Suc add.assoc del: upt_Suc)
  obtain nd' where nd': "body ii nd = (nd', None)" using b by (cases "body ii nd") auto
  show ?case unfolding m using nd' e by simp
qed

lemma get1_ok: "0 \<le> i \<Longrightarrow> i < int (length xs) \<Longrightarrow> get1 xs i = Inr (xs ! nat i)"
  by (simp add: get1_def np_index_nonneg)

lemma toTreeC_ok:
  assumes "length c_vec = length self"
  shows "toTreeC c_vec self = (map2 (\<lambda>nd v. nd\<lparr>ca := v\<rparr>) self c_vec, None)"
proof -
  have b: "toTreeC_body c_vec (int q) (self ! q) = ((self ! q)\<lparr>ca := c_vec ! q\<rparr>, None)"
    if "q < length self" for q
    using that assms by (simp add: toTreeC_body_def get1_ok)
  have "enumerate_nodes (toTreeC_body c_vec) 0 self =
      (map (\<lambda>q. fst (toTreeC_body c_vec (0 + int q) (self ! q))) [0..<length self], None)"
    by (rule enumerate_nodes_ok) (simp add: b)
  moreover have "map (\<lambda>q. fst (toTreeC_body c_vec (0 + int q) (self ! q))) [0..<length self] =
      map2 (\<lambda>nd v. nd\<lparr>ca := v\<rparr>) self c_vec"
    using assms by (intro nth_equalityI) (simp_all add: b)
  ultimately show ?thesis by (simp add: toTreeC_def)
qed

lemma toTreeG_ok:
  assumes wf: "wf_tree self" and len: "length g_vec = 2 * length self - 1"
  shows "toTreeG g_vec self = (fitG g_vec self, None)"
proof -
  have b: "toTreeG_body g_vec (int q) (self ! q) =
      (if q = 0 then (self ! q)\<lparr>g_l := g_vec ! 0\<rparr>
       else (self ! q)\<lparr>g_c := g_vec ! (2 * q - 1), g_l := g_vec ! (2 * q)\<rparr>, None)"
    if q: "q < length self" for q
  proof (cases "parent_node (self ! q)")
    case None
    then have q0: "q = 0" using wf_treeD(2)[OF wf q] by simp
    have "get1 g_vec 0 = Inr (g_vec ! 0)" using q len by (subst get1_ok) auto
    then show ?thesis using None q0 by (simp add: toTreeG_body_def)
  next
    case (Some j)
    then have qp: "0 < q" using wf_treeD(3)[OF wf q] by simp
    have n1: "nat (2 * int q - 1) = 2 * q - 1" and n2: "nat (2 * int q) = 2 * q" using qp by auto
    have "get1 g_vec (2 * int q - 1) = Inr (g_vec ! (2 * q - 1))"
      using q qp len by (subst get1_ok) (auto simp: n1)
    moreover have "get1 g_vec (2 * int q) = Inr (g_vec ! (2 * q))"
      using q qp len by (subst get1_ok) (auto simp: n2)
    ultimately show ?thesis using Some qp by (simp add: toTreeG_body_def)
  qed
  have "enumerate_nodes (toTreeG_body g_vec) 0 self =
      (map (\<lambda>q. fst (toTreeG_body g_vec (0 + int q) (self ! q))) [0..<length self], None)"
    by (rule enumerate_nodes_ok) (simp add: b)
  moreover have "map (\<lambda>q. fst (toTreeG_body g_vec (0 + int q) (self ! q))) [0..<length self] =
      fitG g_vec self"
    unfolding fitG_def by (intro map_cong refl) (simp add: b)
  ultimately show ?thesis by (simp add: toTreeG_def)
qed

lemma is_arr4D: "is_arr4 m n1 n2 n3 a \<Longrightarrow> f < m \<Longrightarrow> is_arr3 n1 n2 n3 (a ! f)"
  by (simp add: is_arr4_def list_all_length)

lemma arr4_eqI:
  assumes "is_arr4 m n1 n2 n3 a" "is_arr4 m n1 n2 n3 b"
    "\<And>f r c k. f < m \<Longrightarrow> r < n1 \<Longrightarrow> c < n2 \<Longrightarrow> k < n3 \<Longrightarrow> a ! f ! r ! c ! k = b ! f ! r ! c ! k"
  shows "a = b"
proof (rule nth_equalityI)
  show "length a = length b" using assms by (simp add: is_arr4_def)
  fix f assume "f < length a"
  then have f: "f < m" using assms(1) by (simp add: is_arr4_def)
  show "a ! f = b ! f"
    by (rule arr3_eqI[OF is_arr4D[OF assms(1) f] is_arr4D[OF assms(2) f]]) (rule assms(3)[OF f])
qed

lemma iadd_stack3_entry:
  fixes a :: "'a::ab_group_add list list list list"
  assumes "is_arr4 m n1 n2 n3 a" and "length vs = m"
    and "0 \<le> i" "i < int n1" "0 \<le> j" "j < int n2" "0 \<le> k" "k < int n3"
  shows "\<exists>a'. iadd_stack3 n1 n2 n3 a i j k vs = Inr a' \<and> is_arr4 m n1 n2 n3 a' \<and>
           (\<forall>f<m. \<forall>r c d. a' ! f ! r ! c ! d =
              a ! f ! r ! c ! d + (if int r = i \<and> int c = j \<and> int d = k then vs ! f else 0))"
proof -
  let ?u = "\<lambda>t v. t[nat i := (t ! nat i)[nat j := (t ! nat i ! nat j)[nat k := t ! nat i ! nat j ! nat k + v]]]"
  let ?a' = "map2 ?u a vs"
  have run: "iadd_stack3 n1 n2 n3 a i j k vs = Inr ?a'"
    using assms(3-) by (simp add: iadd_stack3_def np_index_nonneg)
  have len: "length a = m" using assms(1) by (simp add: is_arr4_def)
  have sl: "?a' ! f = ?u (a ! f) (vs ! f)" if "f < m" for f
    using that len assms(2) by simp
  have st: "is_arr4 m n1 n2 n3 ?a'"
    unfolding is_arr4_def list_all_length
  proof (intro conjI allI impI)
    show "length ?a' = m" using len assms(2) by simp
    fix f assume "f < length ?a'"
    then have f: "f < m" using len assms(2) by simp
    show "is_arr3 n1 n2 n3 (?a' ! f)"
      unfolding sl[OF f] using is_arr4D[OF assms(1) f] assms(3-6) by (intro is_arr3_update) auto
  qed
  have en: "?a' ! f ! r ! c ! d =
      a ! f ! r ! c ! d + (if int r = i \<and> int c = j \<and> int d = k then vs ! f else 0)"
    if f: "f < m" for f r c d
  proof -
    have ma: "is_arr3 n1 n2 n3 (a ! f)" by (rule is_arr4D[OF assms(1) f])
    have l1: "nat i < length (a ! f)" using ma assms(3,4) by (simp add: is_arr3_def)
    have mm: "is_mat n2 n3 (a ! f ! nat i)" using ma assms(3,4) by (intro is_arr3D[OF ma]) auto
    have l2: "nat j < length (a ! f ! nat i)" using mm assms(5,6) by (simp add: is_mat_def)
    have l3: "nat k < length (a ! f ! nat i ! nat j)"
      using mm l2 assms(7,8) by (auto simp: is_mat_def list_all_length)
    show ?thesis unfolding sl[OF f] using assms(3,5,7) by (subst nth_update3[OF l1 l2 l3]) auto
  qed
  show ?thesis
  proof (intro exI conjI allI impI)
    show "iadd_stack3 n1 n2 n3 a i j k vs = Inr ?a'" by (rule run)
    show "is_arr4 m n1 n2 n3 ?a'" by (rule st)
    fix f r c d assume "f < m"
    then show "?a' ! f ! r ! c ! d =
      a ! f ! r ! c ! d + (if int r = i \<and> int c = j \<and> int d = k then vs ! f else 0)"
      by (rule en)
  qed
qed

lemma structC_loop_ok:
  assumes "is_arr4 m n n nc a" and "length freqs = m"
    and "list_all (\<lambda>nd. 0 \<le> index nd \<and> index nd < int n \<and> index nd < int nc) nds"
  shows "\<exists>a'. foldE (structC_body n nc freqs) nds a = Inr a' \<and> is_arr4 m n n nc a' \<and>
           (\<forall>f<m. \<forall>r c k. a' ! f ! r ! c ! k = a ! f ! r ! c ! k +
              sum_list (map (\<lambda>nd. if int r = index nd \<and> int c = index nd \<and> int k = index nd
                                   then freqs ! f else 0) nds))"
  using assms
proof (induction nds arbitrary: a)
  case Nil
  then show ?case by simp
next
  case (Cons nd nds)
  have i: "0 \<le> index nd" "index nd < int n" "index nd < int nc" using Cons.prems(3) by auto
  have la: "list_all (\<lambda>nd. 0 \<le> index nd \<and> index nd < int n \<and> index nd < int nc) nds"
    using Cons.prems(3) by simp
  from iadd_stack3_entry[OF Cons.prems(1,2) i(1,2) i(1,2) i(1,3)]
  obtain a1 where 1: "structC_body n nc freqs a nd = Inr a1" and s1: "is_arr4 m n n nc a1"
    and e0: "\<forall>f<m. \<forall>r c k. a1 ! f ! r ! c ! k = a ! f ! r ! c ! k +
               (if int r = index nd \<and> int c = index nd \<and> int k = index nd then freqs ! f else 0)"
    unfolding structC_body_def Let_def by blast
  from Cons.IH[OF s1 Cons.prems(2) la] obtain a' where
    2: "foldE (structC_body n nc freqs) nds a1 = Inr a'" and s': "is_arr4 m n n nc a'"
    and e0': "\<forall>f<m. \<forall>r c k. a' ! f ! r ! c ! k = a1 ! f ! r ! c ! k +
              sum_list (map (\<lambda>nd. if int r = index nd \<and> int c = index nd \<and> int k = index nd
                                   then freqs ! f else 0) nds)"
    by blast
  show ?case using 1 2 s' e0 e0' by (simp add: add.assoc)
qed

lemma sum_list_nth: "sum_list (map f xs) = (\<Sum>q<length xs. f (xs ! q))"
proof -
  have "map f xs = map (\<lambda>q. f (xs ! q)) [0..<length xs]"
    by (intro nth_equalityI) simp_all
  then show ?thesis by (simp add: sum_list_upt)
qed

lemma wf_tree_diag_sum:
  fixes v :: "'a::comm_monoid_add"
  assumes wf: "wf_tree t" and r: "r < length t"
  shows "sum_list (map (\<lambda>nd. if int r = index nd \<and> int c = index nd \<and> int k = index nd
                              then v else 0) t) = (if r = c \<and> c = k then v else 0)"
proof -
  have "sum_list (map (\<lambda>nd. if int r = index nd \<and> int c = index nd \<and> int k = index nd
                              then v else 0) t) =
        (\<Sum>q<length t. if q = r then (if r = c \<and> c = k then v else 0) else 0)"
    unfolding sum_list_nth
    by (intro sum.cong refl) (auto simp: wf_treeD(1)[OF wf])
  also have "\<dots> = (if r = c \<and> c = k then v else 0)" using r by (simp add: sum.delta)
  finally show ?thesis .
qed

lemma is_arr4_structC_spec: "is_arr4 (length freqs) n n n (structC_spec freqs n)"
  by (simp add: is_arr4_def structC_spec_def is_arr3_def is_mat_def list_all_iff)

lemma is_arr4_replicate: "is_arr3 n1 n2 n3 z \<Longrightarrow> is_arr4 m n1 n2 n3 (replicate m z)"
  by (simp add: is_arr4_def list_all_iff)

lemma toStructureTensorC_eq_spec:
  assumes wf: "wf_tree self"
  shows "toStructureTensorC freqs self = Inr (structC_spec freqs (length self))"
proof -
  let ?n = "length self" and ?m = "length freqs"
  have io: "list_all (\<lambda>nd. 0 \<le> index nd \<and> index nd < int ?n \<and> index nd < int ?n) self"
    unfolding list_all_length using wf_treeD(1)[OF wf] by simp
  from structC_loop_ok[OF is_arr4_replicate[OF is_arr3_zeros3] refl io]
  obtain a where a: "foldE (structC_body ?n ?n freqs) self (replicate ?m (zeros3 ?n ?n ?n)) = Inr a"
    and s: "is_arr4 ?m ?n ?n ?n a"
    and e0: "\<forall>f<?m. \<forall>r c k. a ! f ! r ! c ! k = replicate ?m (zeros3 ?n ?n ?n) ! f ! r ! c ! k +
              sum_list (map (\<lambda>nd. if int r = index nd \<and> int c = index nd \<and> int k = index nd
                                   then freqs ! f else 0) self)"
    by blast
  have "a = structC_spec freqs ?n"
  proof (rule arr4_eqI[OF s is_arr4_structC_spec])
    fix f r c k assume b: "f < ?m" "r < ?n" "c < ?n" "k < ?n"
    have "a ! f ! r ! c ! k = (if r = c \<and> c = k then freqs ! f else 0)"
      using e0 b by (simp add: zeros3_nth wf_tree_diag_sum[OF wf])
    then show "a ! f ! r ! c ! k = structC_spec freqs ?n ! f ! r ! c ! k"
      using b by (simp add: structC_spec_def)
  qed
  then show ?thesis using a by (simp add: toStructureTensorC_def toVecC_def)
qed

lemma einsum_oij_jk_eq:
  assumes "list_all (is_mat n n) zf" and "is_mat n n g"
  shows "einsum_oij_jk n zf g = map (\<lambda>z. mat_mul n z (map (map complex_of_real) g)) zf"
  unfolding einsum_oij_jk_def
proof (intro map_cong refl)
  fix z assume "z \<in> set zf"
  then have z: "is_mat n n z" using assms(1) by (simp add: list_all_iff)
  have g: "map (map complex_of_real) g ! j ! k = complex_of_real (g ! j ! k)" if "j < n" "k < n" for j k
    using that assms(2) by (simp add: is_mat_def list_all_length)
  show "map (\<lambda>zrow. map (\<lambda>k. \<Sum>j\<leftarrow>[0..<n]. zrow ! j * complex_of_real (g ! j ! k)) [0..<n]) z =
        mat_mul n z (map (map complex_of_real) g)"
  proof (rule nth_equalityI)
    show "length (map (\<lambda>zrow. map (\<lambda>k. \<Sum>j\<leftarrow>[0..<n]. zrow ! j * complex_of_real (g ! j ! k)) [0..<n]) z) =
        length (mat_mul n z (map (map complex_of_real) g))"
      using z by (simp add: mat_mul_def is_mat_def)
    fix i assume "i < length (map (\<lambda>zrow. map (\<lambda>k. \<Sum>j\<leftarrow>[0..<n]. zrow ! j * complex_of_real (g ! j ! k)) [0..<n]) z)"
    then have i: "i < n" using z by (simp add: is_mat_def)
    have "map (\<lambda>k. \<Sum>j\<leftarrow>[0..<n]. z ! i ! j * complex_of_real (g ! j ! k)) [0..<n] =
          map (\<lambda>k. \<Sum>j\<leftarrow>[0..<n]. z ! i ! j * map (map complex_of_real) g ! j ! k) [0..<n]"
      by (intro map_cong refl arg_cong[of _ _ sum_list]) (simp add: g)
    then show "map (\<lambda>zrow. map (\<lambda>k. \<Sum>j\<leftarrow>[0..<n]. zrow ! j * complex_of_real (g ! j ! k)) [0..<n]) z ! i =
        mat_mul n z (map (map complex_of_real) g) ! i"
      using i z by (simp add: mat_mul_def is_mat_def)
  qed
qed

lemma is_mat_mat_mul: "is_mat n n (mat_mul n a b)"
  by (simp add: is_mat_def mat_mul_def list_all_iff)

lemma contract_ij_jkl_rows:
  assumes "length z = n"
  shows "contract_ij_jkl n n2 p z s =
           map (\<lambda>i. map (\<lambda>k. map (\<lambda>l. sum_list (map (\<lambda>j. z ! i ! j * s ! j ! k ! l) [0..<n]))
                                [0..<p]) [0..<n2]) [0..<n]"
  using assms by (intro nth_equalityI) (simp_all add: contract_ij_jkl_def)

lemma featureG_contract:
  assumes "length z = length self"
  shows "featureG z self =
           concat (contract_ij_jkl (length self) (length self) (length (toVecG self)) z
                     (structG_spec self))"
  by (simp add: featureG_def contract_ij_jkl_rows[OF assms])

text \<open>The feature matrix the code builds with \<open>einsum\<close> is the one the specification
  writes entry by entry.\<close>

lemma featureC_contract:
  assumes zl: "length zf = length freqs" and zm: "list_all (is_mat n n) zf"
  shows "featureC freqs zf n =
           concat (concat (map2 (contract_ij_jkl n n n) zf (structC_spec freqs n)))"
proof -
  have ls: "length (structC_spec freqs n) = length freqs" by (simp add: structC_spec_def)
  have "map2 (contract_ij_jkl n n n) zf (structC_spec freqs n) =
        map (\<lambda>f. map (\<lambda>i. map (\<lambda>k. map (\<lambda>l.
            sum_list (map (\<lambda>j. zf ! f ! i ! j * structC_spec freqs n ! f ! j ! k ! l) [0..<n]))
          [0..<n]) [0..<n]) [0..<n]) [0..<length freqs]"
  proof (rule nth_equalityI)
    show "length (map2 (contract_ij_jkl n n n) zf (structC_spec freqs n)) =
          length (map (\<lambda>f. map (\<lambda>i. map (\<lambda>k. map (\<lambda>l.
            sum_list (map (\<lambda>j. zf ! f ! i ! j * structC_spec freqs n ! f ! j ! k ! l) [0..<n]))
          [0..<n]) [0..<n]) [0..<n]) [0..<length freqs])"
      using zl ls by simp
  next
    fix f assume "f < length (map2 (contract_ij_jkl n n n) zf (structC_spec freqs n))"
    then have f: "f < length freqs" using zl ls by simp
    have "length (zf ! f) = n" using zm zl f by (simp add: list_all_length is_mat_def)
    then show "map2 (contract_ij_jkl n n n) zf (structC_spec freqs n) ! f =
          map (\<lambda>f. map (\<lambda>i. map (\<lambda>k. map (\<lambda>l.
            sum_list (map (\<lambda>j. zf ! f ! i ! j * structC_spec freqs n ! f ! j ! k ! l) [0..<n]))
          [0..<n]) [0..<n]) [0..<n]) [0..<length freqs] ! f"
      using f zl ls by (simp add: contract_ij_jkl_rows)
  qed
  then show ?thesis by (simp add: featureC_def)
qed

lemma targetC_mat_mul:
  assumes g: "is_mat n n g"
  shows "targetC zf g n =
           concat (concat (map (\<lambda>z. map2 (map2 (\<lambda>e x. e - x)) (eye n)
                                       (mat_mul n z (map (map complex_of_real) g))) zf))"
proof -
  have gn: "map (map complex_of_real) g ! j ! k = complex_of_real (g ! j ! k)"
    if "j < n" "k < n" for j k
    using that g by (simp add: is_mat_def list_all_length)
  have row: "map2 (map2 (\<lambda>e x. e - x)) (eye n) (mat_mul n z (map (map complex_of_real) g)) =
      map (\<lambda>i. map (\<lambda>k. (if i = k then 1 else 0) -
         sum_list (map (\<lambda>j. z ! i ! j * complex_of_real (g ! j ! k)) [0..<n])) [0..<n]) [0..<n]"
    for z :: "complex list list"
  proof (rule nth_equalityI)
    show "length (map2 (map2 (\<lambda>e x. e - x)) (eye n) (mat_mul n z (map (map complex_of_real) g))) =
        length (map (\<lambda>i. map (\<lambda>k. (if i = k then 1 else 0) -
         sum_list (map (\<lambda>j. z ! i ! j * complex_of_real (g ! j ! k)) [0..<n])) [0..<n]) [0..<n])"
      by (simp add: eye_def mat_mul_def)
  next
    fix i
    assume "i < length (map2 (map2 (\<lambda>e x. e - x)) (eye n)
                   (mat_mul n z (map (map complex_of_real) g)))"
    then have i: "i < n" by (simp add: eye_def mat_mul_def)
    have "map2 (\<lambda>e x. e - x) (eye n ! i) (mat_mul n z (map (map complex_of_real) g) ! i) =
        map (\<lambda>k. (if i = k then 1 else 0) -
         sum_list (map (\<lambda>j. z ! i ! j * complex_of_real (g ! j ! k)) [0..<n])) [0..<n]"
    proof (rule nth_equalityI)
      show "length (map2 (\<lambda>e x. e - x) (eye n ! i)
                 (mat_mul n z (map (map complex_of_real) g) ! i)) =
          length (map (\<lambda>k. (if i = k then 1 else 0) -
         sum_list (map (\<lambda>j. z ! i ! j * complex_of_real (g ! j ! k)) [0..<n])) [0..<n])"
        using i by (simp add: eye_def mat_mul_def)
    next
      fix k
      assume "k < length (map2 (\<lambda>e x. e - x) (eye n ! i)
                 (mat_mul n z (map (map complex_of_real) g) ! i))"
      then have k: "k < n" using i by (simp add: eye_def mat_mul_def)
      have "sum_list (map (\<lambda>j. z ! i ! j * map (map complex_of_real) g ! j ! k) [0..<n]) =
            sum_list (map (\<lambda>j. z ! i ! j * complex_of_real (g ! j ! k)) [0..<n])"
        by (intro arg_cong[of _ _ sum_list] map_cong refl) (simp add: gn k)
      then show "map2 (\<lambda>e x. e - x) (eye n ! i)
                 (mat_mul n z (map (map complex_of_real) g) ! i) ! k =
          map (\<lambda>k. (if i = k then 1 else 0) -
         sum_list (map (\<lambda>j. z ! i ! j * complex_of_real (g ! j ! k)) [0..<n])) [0..<n] ! k"
        using i k by (simp add: eye_def mat_mul_def)
    qed
    then show "map2 (map2 (\<lambda>e x. e - x)) (eye n)
                 (mat_mul n z (map (map complex_of_real) g)) ! i =
        map (\<lambda>i. map (\<lambda>k. (if i = k then 1 else 0) -
         sum_list (map (\<lambda>j. z ! i ! j * complex_of_real (g ! j ! k)) [0..<n])) [0..<n]) [0..<n] ! i"
      using i by (simp add: eye_def mat_mul_def)
  qed
  have "map (\<lambda>z. map2 (map2 (\<lambda>e x. e - x)) (eye n)
                  (mat_mul n z (map (map complex_of_real) g))) zf =
        map (\<lambda>f. map (\<lambda>i. map (\<lambda>k. (if i = k then 1 else 0) -
         sum_list (map (\<lambda>j. zf ! f ! i ! j * complex_of_real (g ! j ! k)) [0..<n]))
           [0..<n]) [0..<n]) [0..<length zf]"
    by (intro nth_equalityI) (simp_all add: row)
  then show ?thesis by (simp add: targetC_def)
qed

lemma computeC_eq_spec:
  assumes wf: "wf_tree self"
    and zf: "length zf_mat = length freqs" "list_all (is_mat (length self) (length self)) zf_mat"
  shows "computeC lstsq freqs zf_mat self =
           tryE (lstsq (featureC freqs zf_mat (length self))
                       (targetC zf_mat (conductance_spec self) (length self)))
             self (\<lambda>res0. toTreeC (map Re res0) self)"
proof -
  let ?n = "length self"
  have rows: "list_all (list_all (\<lambda>zrow. length zrow = ?n)) zf_mat"
    using zf(2) by (auto simp: list_all_iff is_mat_def)
  have e1: "einsum_oij_ojkl ?n ?n ?n zf_mat (structC_spec freqs ?n) =
      Inr (map2 (contract_ij_jkl ?n ?n ?n) zf_mat (structC_spec freqs ?n))"
    using zf(1) rows by (simp add: einsum_oij_ojkl_def structC_spec_def)
  have g: "calcConductanceMatrix self = Inr (conductance_spec self)"
    by (rule calcConductanceMatrix_eq_spec[OF wf_tree_indices_ok[OF wf]])
  have e2: "einsum_oij_jk ?n zf_mat (conductance_spec self) =
      map (\<lambda>z. mat_mul ?n z (map (map complex_of_real) (conductance_spec self))) zf_mat"
    by (rule einsum_oij_jk_eq[OF zf(2) is_mat_conductance_spec])
  have e3: "eye_minus ?n (map (\<lambda>z. mat_mul ?n z (map (map complex_of_real) (conductance_spec self))) zf_mat) =
      Inr (map (\<lambda>sl. map2 (map2 (\<lambda>e x. e - x)) (eye ?n) sl)
             (map (\<lambda>z. mat_mul ?n z (map (map complex_of_real) (conductance_spec self))) zf_mat))"
    by (simp add: eye_minus_def list_all_iff mat_mul_def)
  show ?thesis
    unfolding computeC_def toStructureTensorC_eq_spec[OF wf] Let_def g
    by (simp add: tryE_def e1 e2 e3 toVecC_def featureC_contract[OF zf]
          targetC_mat_mul[OF is_mat_conductance_spec] comp_def)
qed

text \<open>
  Claim C7. For a tree in canonical order and a target of the documented shape
  \<open>(len(freqs), n, n)\<close>, the capacitance structure tensor the loop builds has
  \<open>freqs[f]\<close> at \<open>(f, i, i, i)\<close> and zero elsewhere, and \<open>computeC\<close> hands the solver
  exactly the feature matrix \<open>feature[f,i,k,l] = \<Sum>j. zf[f,i,j] * S[f,j,k,l]\<close> and the
  target \<open>I - zf \<cdot> G\<close> of the specification (both written entry by entry in
  \<open>featureC\<close> and \<open>targetC\<close>, with \<open>G\<close> the conductance matrix of the stored
  conductances). It writes the real part of the solution into \<open>ca\<close> of each node;
  nothing else of the tree changes. \<open>_toTreeC\<close> takes the entry at the node's position
  in the iteration, which in a tree in canonical order is the node's index. An exception
  of the solver passes through with the tree untouched.
\<close>

theorem computeC_contract:
  assumes "wf_tree self"
    and "length zf_mat = length freqs"
    and "list_all (is_mat (length self) (length self)) zf_mat"
  shows "toStructureTensorC freqs self = Inr (structC_spec freqs (length self)) \<and>
         (case lstsq (featureC freqs zf_mat (length self))
                     (targetC zf_mat (conductance_spec self) (length self)) of
            Inl e \<Rightarrow> computeC lstsq freqs zf_mat self = (self, Some e)
          | Inr c_vec \<Rightarrow>
              length c_vec = length self \<longrightarrow>
              computeC lstsq freqs zf_mat self =
                (map (\<lambda>nd. nd\<lparr>ca := Re (c_vec ! nat (index nd))\<rparr>) self, None))"
proof -
  have w: "toTreeC (map Re c_vec) self =
      (map (\<lambda>nd. nd\<lparr>ca := Re (c_vec ! nat (index nd))\<rparr>) self, None)"
    if l: "length c_vec = length self" for c_vec
  proof -
    have "map2 (\<lambda>nd v. nd\<lparr>ca := v\<rparr>) self (map Re c_vec) =
        map (\<lambda>nd. nd\<lparr>ca := Re (c_vec ! nat (index nd))\<rparr>) self"
      using l by (intro nth_equalityI) (simp_all add: wf_treeD(1)[OF assms(1)])
    then show ?thesis using toTreeC_ok[of "map Re c_vec" self] l by simp
  qed
  show ?thesis
    unfolding computeC_eq_spec[OF assms] using toStructureTensorC_eq_spec[OF assms(1)] w
    by (simp add: tryE_def split: sum.splits)
qed

section \<open>Least squares with an attainable target\<close>

lemma resid_nonneg: "0 \<le> resid A b x"
  unfolding resid_def by (rule sum_list_nonneg) auto

lemma resid_zero_iff:
  "resid A b x = 0 \<longleftrightarrow> (\<forall>(row, t) \<in> set (zip A b). dot row x = t)"
proof -
  have "resid A b x = 0 \<longleftrightarrow> (\<forall>v \<in> set (map2 (\<lambda>row t. (norm (dot row x - t))\<^sup>2) A b). v = 0)"
    unfolding resid_def by (rule sum_list_nonneg_eq_0_iff) auto
  also have "\<dots> \<longleftrightarrow> (\<forall>(row, t) \<in> set (zip A b). dot row x = t)"
    by auto
  finally show ?thesis .
qed

lemma least_squares_attained:
  assumes "least_squares p A b x" and "length v = p" and "resid A b v = 0"
  shows "resid A b x = 0"
proof -
  have "resid A b x \<le> resid A b v" using assms(1,2) by (simp add: least_squares_def)
  then show ?thesis using assms(3) resid_nonneg[of A b x] by simp
qed

lemma exact_least_squares:
  assumes "length x = p" and "resid A b x = 0"
  shows "least_squares p A b x"
  using assms by (simp add: least_squares_def resid_nonneg)



section \<open>Matrix algebra, entry by entry\<close>





section \<open>The conductance matrix determines the conductances\<close>



lemma map_eq_nth: "map f xs = map f ys \<Longrightarrow> q < length xs \<Longrightarrow> f (xs ! q) = f (ys ! q)"
  by (metis length_map nth_map)

lemma wf_tree_cong:
  assumes "wf_tree t" "map index s = map index t" "map parent_node s = map parent_node t"
  shows "wf_tree s"
proof -
  have l: "length s = length t" using assms(2) by (metis length_map)
  have "index (s ! q) = index (t ! q)" "parent_node (s ! q) = parent_node (t ! q)"
    if "q < length s" for q
    using map_eq_nth[OF assms(2) that] map_eq_nth[OF assms(3) that] by simp_all
  then show ?thesis using assms(1) unfolding wf_tree_def l list_all_length by simp
qed


section \<open>The conductance fit recovers the conductances\<close>











lemma computeG_run:
  assumes wf: "wf_tree self" and ne: "self \<noteq> []"
    and z: "is_mat (length self) (length self) z_mat"
    and run: "lstsq (featureG z_mat self) (concat (eye (length self))) = Inr x"
    and x: "length x = length (toVecG self)"
  shows "computeG lstsq z_mat self = (fitG x self, None)"
proof -
  have e: "einsum_ij_jkl (length self) (length self) (length (toVecG self)) z_mat
             (structG_spec self) =
           Inr (contract_ij_jkl (length self) (length self) (length (toVecG self)) z_mat
             (structG_spec self))"
    using z by (simp add: einsum_ij_jkl_def is_mat_def)
  have w: "toTreeG x self = (fitG x self, None)"
    by (rule toTreeG_ok[OF wf]) (simp add: x length_toVecG_wf[OF wf ne])
  show ?thesis
    unfolding computeG_def toStructureTensorG_eq_spec[OF wf] Let_def
    using run w z by (simp add: tryE_def e featureG_contract is_mat_def)
qed




section \<open>The capacitance fit recovers the capacitances\<close>









section \<open>The round trip\<close>


section \<open>The two-node scenario\<close>

lemma wf_tree_two_node: "wf_tree two_node"
  by (simp add: wf_tree_def two_node_def upt_rec)

lemma topology_two_fresh:
  "map index two_fresh = map index two_node"
  "map parent_node two_fresh = map parent_node two_node"
  "g_c (two_fresh ! 0) = 0" "g_c (two_node ! 0) = 0" "two_node \<noteq> []"
  by (simp_all add: two_fresh_def two_node_def)

lemma inverse_of_two_node: "inverse_of 2 G_two_node Z_two_node"
  by (simp add: inverse_of_def is_mat_def mat_mul_def eye_def upt_rec numeral_2_eq_2
        G_two_node_def Z_two_node_def)

lemma inverse_of_two_node_c: "inverse_of 2 Gc_two_node Zc_two_node"
  by (simp add: inverse_of_def is_mat_def mat_mul_def eye_def upt_rec numeral_2_eq_2
        Gc_two_node_def Zc_two_node_def)


lemma featureG_two_fresh: "featureG Z_two_node two_fresh = featureG_two_node"
  by (simp add: featureG_def structG_spec_def struct_adds_def two_fresh_def
        Z_two_node_def featureG_two_node_def upt_rec)

lemma resid_G_two_node:
  "resid featureG_two_node (concat (eye 2)) [1 / 100, 1 / 50, 1 / 100] = 0"
  by (simp add: resid_def dot_def featureG_two_node_def eye_def upt_rec numeral_2_eq_2)

section \<open>The capacitance fit of the two-node scenario\<close>

lemma featureC_two_node_eq:
  "featureC [0, 1] [Zc_two_node, Z1_two_node] 2 = featureC_two_node"
  by (simp add: featureC_def structC_spec_def Zc_two_node_def
        Z1_two_node_def featureC_two_node_def upt_rec)

lemma targetC_two_node_eq:
  "targetC [Zc_two_node, Z1_two_node] G_two_node 2 = targetC_two_node"
  by (simp add: targetC_def mat_mul_def eye_def Zc_two_node_def Z1_two_node_def G_two_node_def
        targetC_two_node_def upt_rec)


lemma fitG_two_fresh: "fitG [1 / 100, 1 / 50, 1 / 100] two_fresh = two_fit"
  by (simp add: fitG_def two_fresh_def two_fit_def upt_rec)

lemma two_fit_ca: "map2 (\<lambda>nd v. nd\<lparr>ca := v\<rparr>) two_fit (map ca two_node) = two_node"
  by (simp add: two_fit_def two_node_def)

section \<open>The fits on the two-node scenario\<close>

lemma length_two_fit: "length two_fit = 2"
  by (simp add: two_fit_def)

lemma wf_tree_two_fit: "wf_tree two_fit"
  by (simp add: wf_tree_def two_fit_def upt_rec)

lemma conductance_spec_two_fit: "conductance_spec two_fit = G_two_node"
  by (simp add: conductance_spec_def two_fit_def node_adds_def upt_rec G_two_node_def)

lemma is_mat_Zc_Z1: "list_all (is_mat 2 2) [Zc_two_node, Z1_two_node]"
  by (simp add: is_mat_def Zc_two_node_def Z1_two_node_def)



lemma calcConductanceMatrix_two_node: "calcConductanceMatrix two_node = Inr G_two_node"
  using calcConductanceMatrix_eq_spec[OF indices_ok_two_node]
  by (simp only: conductance_spec_two_node')



theorem computeC_contract_witness:
  "wf_tree two_fit \<and> length [Zc_two_node, Z1_two_node] = length [0, 1 :: complex] \<and>
   list_all (is_mat (length two_fit) (length two_fit)) [Zc_two_node, Z1_two_node] \<and>
   featureC [0, 1] [Zc_two_node, Z1_two_node] (length two_fit) =
     [[0, 0], [0, 0], [0, 0], [0, 0],
      [2060 / 2121, 0], [0, 40 / 2121], [40 / 2121, 0], [0, 2060 / 2121]] \<and>
   targetC [Zc_two_node, Z1_two_node] (conductance_spec two_fit) (length two_fit) =
     [0, 0, 0, 0, 2060 / 2121, 40 / 2121, 40 / 2121, 2060 / 2121] \<and>
   computeC (checked_solver featureC_two_node targetC_two_node [1 + \<i> / 2, 1 - \<i>])
     [0, 1] [Zc_two_node, Z1_two_node] two_fit = (two_node, None)"
proof -
  let ?lstsq = "checked_solver featureC_two_node targetC_two_node [1 + \<i> / 2, 1 - \<i>]"
  have m: "list_all (is_mat (length two_fit) (length two_fit)) [Zc_two_node, Z1_two_node]"
    unfolding length_two_fit by (rule is_mat_Zc_Z1)
  have f: "featureC [0, 1] [Zc_two_node, Z1_two_node] (length two_fit) = featureC_two_node"
    unfolding length_two_fit by (rule featureC_two_node_eq)
  have t: "targetC [Zc_two_node, Z1_two_node] (conductance_spec two_fit) (length two_fit) =
      targetC_two_node"
    unfolding length_two_fit conductance_spec_two_fit by (rule targetC_two_node_eq)
  have r: "?lstsq (featureC [0, 1] [Zc_two_node, Z1_two_node] (length two_fit))
     (targetC [Zc_two_node, Z1_two_node] (conductance_spec two_fit) (length two_fit)) =
     Inr [1 + \<i> / 2, 1 - \<i>]"
    unfolding f t by (simp add: checked_solver_def)
  have e: "map (\<lambda>nd. nd\<lparr>ca := Re ([1 + \<i> / 2, 1 - \<i>] ! nat (index nd))\<rparr>) two_fit = two_node"
    by (simp add: two_fit_def two_node_def)
  from computeC_contract[OF wf_tree_two_fit _ m, of "[0, 1]" ?lstsq]
  have "computeC ?lstsq [0, 1] [Zc_two_node, Z1_two_node] two_fit =
      (map (\<lambda>nd. nd\<lparr>ca := Re ([1 + \<i> / 2, 1 - \<i>] ! nat (index nd))\<rparr>) two_fit, None)"
    unfolding r by (simp add: length_two_fit)
  then have c: "computeC ?lstsq [0, 1] [Zc_two_node, Z1_two_node] two_fit = (two_node, None)"
    unfolding e .
  have f': "featureC [0, 1] [Zc_two_node, Z1_two_node] (length two_fit) =
     [[0, 0], [0, 0], [0, 0], [0, 0],
      [2060 / 2121, 0], [0, 40 / 2121], [40 / 2121, 0], [0, 2060 / 2121]]"
    unfolding f by (simp add: featureC_two_node_def)
  have t': "targetC [Zc_two_node, Z1_two_node] (conductance_spec two_fit) (length two_fit) =
     [0, 0, 0, 0, 2060 / 2121, 40 / 2121, 40 / 2121, 2060 / 2121]"
    unfolding t by (simp add: targetC_two_node_def)
  show ?thesis using wf_tree_two_fit m f' t' c by simp
qed

section \<open>A frequency array without a nonzero frequency\<close>

lemma system_of_two_node_0: "system_of G_two_node [0] two_node = [Gc_two_node]"
  by (simp add: system_of_def cap_adds_def two_node_def upt_rec G_two_node_def Gc_two_node_def)

lemma calcSystemMatrix_two_node_0:
  "calcSystemMatrix (Some [0]) two_node = Inr (Stack [Gc_two_node])"
  using calcSystemMatrix_Some[OF indices_ok_two_node, of "[0]"]
  by (simp only: conductance_spec_two_node' system_of_two_node_0)

lemma featureC_two_node_0:
  "featureC [0] [Zc_two_node] 2 = [[0, 0], [0, 0], [0, 0], [0, 0]]"
  by (simp add: featureC_def structC_spec_def Zc_two_node_def upt_rec)

lemma targetC_two_node_0: "targetC [Zc_two_node] G_two_node 2 = [0, 0, 0, 0]"
  by (simp add: targetC_def mat_mul_def eye_def Zc_two_node_def G_two_node_def upt_rec)

lemma min_norm_C_two_node_0:
  "min_norm_least_squares 2 (featureC [0] [Zc_two_node] 2) (targetC [Zc_two_node] G_two_node 2)
     [0, 0]"
proof -
  have r: "resid [[0, 0], [0, 0], [0, 0], [0, 0]] [0, 0, 0, 0] [0, 0 :: complex] = 0"
    by (simp add: resid_def dot_def)
  have "0 \<le> sum_list (map (\<lambda>v. (norm v)\<^sup>2) y)" for y :: "complex list"
    by (rule sum_list_nonneg) auto
  then show ?thesis
    unfolding min_norm_least_squares_def featureC_two_node_0 targetC_two_node_0
    using exact_least_squares[OF _ r, of 2] by (intro conjI allI impI) simp_all
qed

lemma least_squares_G_two_node_unique:
  assumes "least_squares 3 featureG_two_node (concat (eye 2)) y"
  shows "y = [1 / 100, 1 / 50, 1 / 100]"
proof -
  have r: "resid featureG_two_node (concat (eye 2)) y = 0"
    by (rule least_squares_attained[OF assms _ resid_G_two_node]) simp
  have "length y = 3" using assms by (simp add: least_squares_def)
  then obtain a b c where y: "y = [a, b, c]"
    by (auto simp: numeral_3_eq_3 length_Suc_conv)
  have "60 * a + 20 * b = 1" "- (20 * b) + 40 * c = 0" "40 * a - 20 * b = 0"
    using r unfolding resid_zero_iff y
    by (simp_all add: featureG_two_node_def eye_def dot_def upt_rec numeral_2_eq_2)
  then have "a = 1 / 100" "b = 1 / 50" "c = 1 / 100" by simp_all
  then show ?thesis using y by simp
qed

lemma min_norm_G_two_node:
  "min_norm_least_squares 3 (featureG Z_two_node two_fresh) (concat (eye 2))
     [1 / 100, 1 / 50, 1 / 100]"
  unfolding min_norm_least_squares_def featureG_two_fresh
proof (intro conjI allI impI)
  show "least_squares 3 featureG_two_node (concat (eye 2)) [1 / 100, 1 / 50, 1 / 100]"
    by (rule exact_least_squares[OF _ resid_G_two_node]) simp
  fix y assume "least_squares 3 featureG_two_node (concat (eye 2)) y"
  then have "y = [1 / 100, 1 / 50, 1 / 100]" by (rule least_squares_G_two_node_unique)
  then show "sum_list (map (\<lambda>v. (norm v)\<^sup>2) [1 / 100, 1 / 50, 1 / 100 :: real]) \<le>
      sum_list (map (\<lambda>v. (norm v)\<^sup>2) y)"
    by simp
qed

lemma wf_tree_two_fresh: "wf_tree two_fresh"
  by (rule wf_tree_cong[OF wf_tree_two_node topology_two_fresh(1,2)])

lemma computeG_two_fresh:
  "computeG (const_solver [1 / 100, 1 / 50, 1 / 100]) Z_two_node two_fresh = (two_fit, None)"
proof -
  have l: "length two_fresh = 2" by (simp add: two_fresh_def)
  have ne: "two_fresh \<noteq> []" by (simp add: two_fresh_def)
  have z: "is_mat (length two_fresh) (length two_fresh) Z_two_node"
    unfolding l by (simp add: is_mat_def Z_two_node_def)
  have "computeG (const_solver [1 / 100, 1 / 50, 1 / 100]) Z_two_node two_fresh =
        (fitG [1 / 100, 1 / 50, 1 / 100] two_fresh, None)"
    by (rule computeG_run[OF wf_tree_two_fresh ne z])
       (simp_all add: const_solver_def length_toVecG_wf[OF wf_tree_two_fresh ne] l)
  then show ?thesis by (simp only: fitG_two_fresh)
qed

lemma computeC_two_fit_0:
  "computeC (const_solver [0, 0]) [0] [Zc_two_node] two_fit =
     (map (\<lambda>nd. nd\<lparr>ca := 0\<rparr>) two_fit, None)"
proof -
  have m: "list_all (is_mat (length two_fit) (length two_fit)) [Zc_two_node]"
    unfolding length_two_fit by (simp add: is_mat_def Zc_two_node_def)
  have "computeC (const_solver [0, 0]) [0] [Zc_two_node] two_fit = toTreeC (map Re [0, 0]) two_fit"
    unfolding computeC_eq_spec[OF wf_tree_two_fit _ m, of "[0]", simplified]
    by (simp add: tryE_def const_solver_def)
  also have "\<dots> = (map2 (\<lambda>nd v. nd\<lparr>ca := v\<rparr>) two_fit (map Re [0, 0]), None)"
    by (rule toTreeC_ok) (simp add: length_two_fit)
  finally show ?thesis by (simp add: two_fit_def)
qed

text \<open>
  The hypothesis of a nonzero frequency cannot be dropped from the round trip. At a
  frequency array that holds only the frequency 0, with exact inverses and solver answers
  that are the least-squares solutions of least norm, \<open>computeG\<close> recovers the
  conductances, but the feature matrix of \<open>computeC\<close> is zero, its target is zero, the
  solution of least norm is zero, and \<open>computeC\<close> sets every \<open>ca\<close> to 0 where the
  original tree has 1: the impedance at frequency 0 carries no information about the
  capacitances.
\<close>

lemma zero_frequency_loses_capacitance:
  "calcConductanceMatrix two_node = Inr G_two_node \<and>
   inverse_of 2 G_two_node Z_two_node \<and>
   calcSystemMatrix (Some [0]) two_node = Inr (Stack [Gc_two_node]) \<and>
   list_all2 (inverse_of 2) [Gc_two_node] [Zc_two_node] \<and>
   min_norm_least_squares 3 (featureG Z_two_node two_fresh) (concat (eye 2))
     [1 / 100, 1 / 50, 1 / 100] \<and>
   computeG (const_solver [1 / 100, 1 / 50, 1 / 100]) Z_two_node two_fresh = (two_fit, None) \<and>
   min_norm_least_squares 2 (featureC [0] [Zc_two_node] 2)
     (targetC [Zc_two_node] (conductance_spec two_fit) 2) [0, 0] \<and>
   computeC (const_solver [0, 0]) [0] [Zc_two_node] two_fit =
     (map (\<lambda>nd. nd\<lparr>ca := 0\<rparr>) two_fit, None) \<and>
   map ca (map (\<lambda>nd. nd\<lparr>ca := 0\<rparr>) two_fit) = [0, 0] \<and>
   map ca two_node = [1, 1]"
proof (intro conjI)
  show "calcConductanceMatrix two_node = Inr G_two_node" by (rule calcConductanceMatrix_two_node)
  show "inverse_of 2 G_two_node Z_two_node" by (rule inverse_of_two_node)
  show "calcSystemMatrix (Some [0]) two_node = Inr (Stack [Gc_two_node])"
    by (rule calcSystemMatrix_two_node_0)
  show "list_all2 (inverse_of 2) [Gc_two_node] [Zc_two_node]"
    using inverse_of_two_node_c by simp
  show "min_norm_least_squares 3 (featureG Z_two_node two_fresh) (concat (eye 2))
     [1 / 100, 1 / 50, 1 / 100]"
    by (rule min_norm_G_two_node)
  show "computeG (const_solver [1 / 100, 1 / 50, 1 / 100]) Z_two_node two_fresh = (two_fit, None)"
    by (rule computeG_two_fresh)
  show "min_norm_least_squares 2 (featureC [0] [Zc_two_node] 2)
     (targetC [Zc_two_node] (conductance_spec two_fit) 2) [0, 0]"
    unfolding conductance_spec_two_fit by (rule min_norm_C_two_node_0)
  show "computeC (const_solver [0, 0]) [0] [Zc_two_node] two_fit =
     (map (\<lambda>nd. nd\<lparr>ca := 0\<rparr>) two_fit, None)"
    by (rule computeC_two_fit_0)
  show "map ca (map (\<lambda>nd. nd\<lparr>ca := 0\<rparr>) two_fit) = [0, 0]" by (simp add: two_fit_def)
  show "map ca two_node = [1, 1]" by (simp add: two_node_def)
qed

section \<open>Rounding to float64\<close>








section \<open>The round trip on float64 impedances\<close>





















section \<open>A singular system matrix that float64 inversion accepts\<close>















end
